theory Spec2Isabelle
  imports Main "HOL-Library.Char_ord" "HOL-Library.List_Lexorder" "HOL-Library.Sublist"
begin

section \<open>Bear notes MCP server: the data access layer\<close>

text \<open>
  The development embeds \<^verbatim>\<open>src/bear.ts\<close> (the write path over the callback URL and the
  read path over SQLite), the tool handlers of \<^verbatim>\<open>src/server.ts\<close> that the claims name, and
  \<^verbatim>\<open>getDatabase\<close> of \<^verbatim>\<open>src/database.ts\<close>.

  Strings are lists of characters with code points below 256. On these a JavaScript
  string, an SQLite text value and an Isabelle \<^typ>\<open>string\<close> have the same length and the same
  characters. Exceptions are values of the type \<open>error\<close>, and a function that can throw
  returns a sum with the thrown error on the left.
\<close>

subsection \<open>Errors\<close>

text \<open>
  \<^verbatim>\<open>BearError\<close> and \<^verbatim>\<open>DatabaseError\<close> are the two classes of the repository; both hold a
  message and an optional cause. \<open>TypeError\<close> is the engine's own error for a call of a
  property that is no function. \<open>ExecError cmd m\<close> is the error with which \<^verbatim>\<open>execFile\<close> of
  \<^verbatim>\<open>child_process\<close> rejects: its property \<^verbatim>\<open>cmd\<close> is the command line, the file and its
  arguments joined by spaces, and \<open>m\<close> is its message. \<open>External\<close> stands for an error raised
  by the SQLite driver.
\<close>

datatype error =
    BearError string "error option"
  | DatabaseError string "error option"
  | TypeError string
  | ExecError string string
  | External string

fun message :: "error \<Rightarrow> string" where
  "message (BearError m c) = m"
| "message (DatabaseError m c) = m"
| "message (TypeError m) = m"
| "message (ExecError cmd m) = m"
| "message (External m) = m"


subsection \<open>The logger and the world of the write path\<close>

text \<open>
  A call \<^verbatim>\<open>logger.level(message, data)\<close> is recorded as it is made; the data object is a list of
  named values. The world of the write path holds the URLs that the \<^verbatim>\<open>open\<close> command accepted
  and the logger calls made so far.
\<close>

datatype log_level = LDebug | LInfo | LWarn | LError

datatype js_tags = Undefined | Str string | Arr "string list"

datatype log_value =
    VString string
  | VTags js_tags
  | VParams "(string \<times> string) list"
  | VError error

type_synonym log_call = "log_level \<times> string \<times> (string \<times> log_value) list"

record world =
  opened :: "string list"
  logged :: "log_call list"

definition logger :: "log_level \<Rightarrow> string \<Rightarrow> (string \<times> log_value) list \<Rightarrow> world \<Rightarrow> world" where
  "logger level msg data w = w\<lparr>logged := logged w @ [(level, msg, data)]\<rparr>"

subsection \<open>Strings of the JavaScript library\<close>

text \<open>\<^verbatim>\<open>Array.prototype.join\<close>.\<close>

fun join :: "string \<Rightarrow> string list \<Rightarrow> string" where
  "join sep [] = []"
| "join sep [x] = x"
| "join sep (x # y # ys) = x @ sep @ join sep (y # ys)"

text \<open>
  \<^verbatim>\<open>encodeURIComponent\<close>: the letters, the digits and \<^verbatim>\<open>- _ . ! ~ * ' ( )\<close> stay; every other
  character becomes the percent-encoded bytes of its UTF-8 form, which is one byte below code
  point 128 and two bytes from 128 to 255.
\<close>

definition unreserved :: "char \<Rightarrow> bool" where
  "unreserved c \<longleftrightarrow>
     c \<in> set ''ABCDEFGHIJKLMNOPQRSTUVWXYZabcdefghijklmnopqrstuvwxyz0123456789-_.!~*()''
     \<or> c = CHR 0x27"

definition hexdigit :: "nat \<Rightarrow> char" where
  "hexdigit n = ''0123456789ABCDEF'' ! (n mod 16)"

definition pct :: "nat \<Rightarrow> string" where
  "pct b = [CHR ''%'', hexdigit (b div 16), hexdigit b]"

definition encode_char :: "char \<Rightarrow> string" where
  "encode_char c =
     (let n = (of_char c :: nat) in
      if unreserved c then [c]
      else if n < 128 then pct n
      else pct (192 + n div 64) @ pct (128 + n mod 64))"

definition encodeURIComponent :: "string \<Rightarrow> string" where
  "encodeURIComponent s = concat (map encode_char s)"

subsection \<open>Write operations (via URL scheme)\<close>

text \<open>
  \<open>exec url\<close> is what the command \<^verbatim>\<open>open\<close> does with the URL: \<open>None\<close> when it succeeds, so
  that the promise of \<^verbatim>\<open>execFileAsync("open", [url])\<close> resolves, and \<open>Some m\<close> when it cannot
  be started or fails, so that the promise rejects with an error of message \<open>m\<close>, whose
  \<^verbatim>\<open>cmd\<close> is the command line \<^verbatim>\<open>open\<close>, a space and the URL. The parameter object is the
  list of its entries in insertion order, which is the order of \<^verbatim>\<open>Object.entries\<close>.
\<close>

type_synonym opener = "string \<Rightarrow> string option"

definition execFileAsync :: "opener \<Rightarrow> string \<Rightarrow> string \<Rightarrow> error option" where
  "execFileAsync exec file url =
     (case exec url of
        None \<Rightarrow> None
      | Some m \<Rightarrow> Some (ExecError (join '' '' [file, url]) m))"

definition bear_url :: "string \<Rightarrow> (string \<times> string) list \<Rightarrow> string" where
  "bear_url action params =
     (let encodedParams =
            join ''&'' (map (\<lambda>(key, val). key @ ''='' @ encodeURIComponent val) params)
      in ''bear://x-callback-url/'' @ action @ ''?'' @ encodedParams)"

definition callBearUrl ::
  "opener \<Rightarrow> string \<Rightarrow> (string \<times> string) list \<Rightarrow> world \<Rightarrow> (error + unit) \<times> world" where
  "callBearUrl exec action params w =
     (let url = bear_url action params
      in case execFileAsync exec ''open'' url of
           None \<Rightarrow>
             (Inr (),
              logger LDebug ''Called Bear URL''
                [(''action'', VString action), (''params'', VParams params)]
                (w\<lparr>opened := opened w @ [url]\<rparr>))
         | Some e \<Rightarrow>
             (Inl (BearError (''Failed to call Bear action: '' @ action) (Some e)),
              logger LError ''Bear URL call failed''
                [(''action'', VString action), (''params'', VParams params), (''error'', VError e)]
                w))"

text \<open>
  \<^verbatim>\<open>await f; logger.info(...)\<close>: the logger call runs only when the awaited call did not throw.
\<close>

definition then_info ::
  "(error + unit) \<times> world \<Rightarrow> string \<Rightarrow> (string \<times> log_value) list \<Rightarrow> (error + unit) \<times> world" where
  "then_info r msg data =
     (case r of
        (Inl e, w) \<Rightarrow> (Inl e, w)
      | (Inr u, w) \<Rightarrow> (Inr u, logger LInfo msg data w))"

text \<open>
  The first lines of \<^verbatim>\<open>createNote\<close> and of \<^verbatim>\<open>replaceNoteContent\<close> are the same:
  \<^verbatim>\<open>
  let fullText = "";
  if (tags?.length) { fullText = tags.map(t => `#${t}`).join(" ") + "\n\n"; }
  fullText += text;
  \<close>
  The parameter \<^verbatim>\<open>tags\<close> is what the caller passed at run time: nothing, an array of strings,
  or a string. The length of a string is a number as well, and a string has no \<^verbatim>\<open>map\<close>, so
  the call of it throws a \<^verbatim>\<open>TypeError\<close>; the wording of its message is the engine's, and
  the model carries a short form.
\<close>

definition newline :: char where
  "newline = CHR 0x0A"

fun fullText :: "js_tags \<Rightarrow> string \<Rightarrow> error + string" where
  "fullText Undefined text = Inr text"
| "fullText (Arr ts) text =
     (if length ts \<noteq> 0
      then Inr (join '' '' (map (\<lambda>t. CHR ''#'' # t) ts) @ [newline, newline] @ text)
      else Inr text)"
| "fullText (Str s) text =
     (if length s \<noteq> 0 then Inl (TypeError ''tags.map is not a function'') else Inr text)"

definition createNote ::
  "opener \<Rightarrow> string \<Rightarrow> string \<Rightarrow> js_tags \<Rightarrow> world \<Rightarrow> (error + unit) \<times> world" where
  "createNote exec title text tags w =
     (case fullText tags text of
        Inl e \<Rightarrow> (Inl e, w)
      | Inr full \<Rightarrow>
          then_info (callBearUrl exec ''create'' [(''title'', title), (''text'', full)] w)
            ''Created note'' [(''title'', VString title), (''tags'', VTags tags)])"

definition appendToNote ::
  "opener \<Rightarrow> string \<Rightarrow> string \<Rightarrow> world \<Rightarrow> (error + unit) \<times> world" where
  "appendToNote exec noteId text w =
     then_info
       (callBearUrl exec ''add-text'' [(''id'', noteId), (''text'', text), (''mode'', ''append'')] w)
       ''Appended to note'' [(''noteId'', VString noteId)]"

definition replaceNoteContent ::
  "opener \<Rightarrow> string \<Rightarrow> string \<Rightarrow> js_tags \<Rightarrow> world \<Rightarrow> (error + unit) \<times> world" where
  "replaceNoteContent exec noteId text tags w =
     (case fullText tags text of
        Inl e \<Rightarrow> (Inl e, w)
      | Inr full \<Rightarrow>
          then_info
            (callBearUrl exec ''add-text''
               [(''id'', noteId), (''text'', full), (''mode'', ''replace_all'')] w)
            ''Replaced note content'' [(''noteId'', VString noteId), (''tags'', VTags tags)])"

definition trashNote :: "opener \<Rightarrow> string \<Rightarrow> world \<Rightarrow> (error + unit) \<times> world" where
  "trashNote exec noteId w =
     then_info (callBearUrl exec ''trash'' [(''id'', noteId)] w)
       ''Trashed note'' [(''noteId'', VString noteId)]"

definition archiveNote :: "opener \<Rightarrow> string \<Rightarrow> world \<Rightarrow> (error + unit) \<times> world" where
  "archiveNote exec noteId w =
     then_info (callBearUrl exec ''archive'' [(''id'', noteId)] w)
       ''Archived note'' [(''noteId'', VString noteId)]"

definition unarchiveNote :: "opener \<Rightarrow> string \<Rightarrow> world \<Rightarrow> (error + unit) \<times> world" where
  "unarchiveNote exec noteId w =
     then_info (callBearUrl exec ''unarchive'' [(''id'', noteId)] w)
       ''Unarchived note'' [(''noteId'', VString noteId)]"

subsection \<open>The store\<close>

text \<open>
  Modelled from the spec: the schema of the store, whose table declarations are not in the
  repository (section 6 of the specification: a notes relation keyed by a stable unique
  identifier string, with title, body, creation and modification timestamps as offsets from
  the store's epoch, and integer flags for trashed and archived; a tags relation keyed by an
  internal row id, with a display name; a join relation between notes and tags by internal
  row ids). The columns carry the names the queries of \<^verbatim>\<open>bear.ts\<close> use; the columns
  \<^verbatim>\<open>Z_PK\<close> and \<^verbatim>\<open>ZTITLE\<close> of the tags table are \<open>TAG_PK\<close> and \<open>TAG_TITLE\<close>. Timestamps
  are whole seconds.
\<close>

record note_row =
  Z_PK :: int
  ZUNIQUEIDENTIFIER :: string
  ZTITLE :: string
  ZTEXT :: string
  ZCREATIONDATE :: int
  ZMODIFICATIONDATE :: int
  ZTRASHED :: int
  ZARCHIVED :: int

record tag_row =
  TAG_PK :: int
  TAG_TITLE :: string

record link_row =
  Z_5NOTES :: int
  Z_13TAGS :: int

record database =
  ZSFNOTE :: "note_row list"
  ZSFNOTETAG :: "tag_row list"
  Z_5TAGS :: "link_row list"

text \<open>
  \<^verbatim>\<open>getDatabase\<close> of \<^verbatim>\<open>database.ts\<close>: no candidate path exists, or the file cannot be opened,
  or it opens. A statement on an open connection either throws or is evaluated on the tables.
\<close>

datatype connection = QueryFails error | Ready database

datatype store = NotFound | OpenFails error | Opens connection

fun getDatabase :: "store \<Rightarrow> error + connection" where
  "getDatabase NotFound =
     Inl (DatabaseError
       ''Bear database not found. Make sure Bear is installed and has been opened at least once.''
       None)"
| "getDatabase (OpenFails e) = Inl (DatabaseError ''Failed to open Bear database'' (Some e))"
| "getDatabase (Opens c) = Inr c"

text \<open>\<^verbatim>\<open>db.prepare(query).all(...)\<close> and \<^verbatim>\<open>.get(...)\<close>, for a query given as a function of the tables.\<close>

fun run :: "connection \<Rightarrow> (database \<Rightarrow> 'a) \<Rightarrow> error + 'a" where
  "run (QueryFails e) q = Inl e"
| "run (Ready d) q = Inr (q d)"

subsection \<open>SQLite's operators\<close>

text \<open>
  The functions of this subsection model SQLite itself, as its documentation describes it.
  \<open>sql_lower\<close> is the case folding of \<^verbatim>\<open>LOWER\<close> and of \<^verbatim>\<open>LIKE\<close>: only the letters A to Z
  fold. In a \<^verbatim>\<open>LIKE\<close> pattern a percent sign matches any run of characters, an underscore
  matches one character, and any other character matches itself up to that folding.
\<close>

definition sql_lower :: "char \<Rightarrow> char" where
  "sql_lower c =
     (let n = (of_char c :: nat) in if 65 \<le> n \<and> n \<le> 90 then char_of (n + 32) else c)"

fun like_match :: "string \<Rightarrow> string \<Rightarrow> bool" where
  "like_match [] s = (s = [])"
| "like_match (p # ps) [] = (p = CHR ''%'' \<and> like_match ps [])"
| "like_match (p # ps) (c # cs) =
     (if p = CHR ''%'' then like_match ps (c # cs) \<or> like_match (p # ps) cs
      else (p = CHR ''_'' \<or> sql_lower p = sql_lower c) \<and> like_match ps cs)"

text \<open>
  \<^verbatim>\<open>LIKE\<close> reads its pattern and its text as strings that end at the first character of
  code 0. It raises the error ``LIKE or GLOB pattern too complex'' for a pattern of more than
  50000 bytes, counted in UTF-8 over the whole pattern: one byte for a character below code
  point 128 and two bytes from 128 to 255.
\<close>

definition c_string :: "string \<Rightarrow> string" where
  "c_string s = takeWhile (\<lambda>c. c \<noteq> CHR 0x00) s"

definition like :: "string \<Rightarrow> string \<Rightarrow> bool" where
  "like pat s = like_match (c_string pat) (c_string s)"

definition utf8_length :: "string \<Rightarrow> nat" where
  "utf8_length s = sum_list (map (\<lambda>c. if (of_char c :: nat) < 128 then 1 else 2) s)"

definition like_too_complex :: "string \<Rightarrow> bool" where
  "like_too_complex pat \<longleftrightarrow> 50000 < utf8_length pat"

text \<open>
  \<^verbatim>\<open>SELECT DISTINCT\<close> with an \<^verbatim>\<open>ORDER BY\<close> column outside the selected ones: a row is a pair of
  its sort key and its selected columns, and of the rows with equal selected columns the first
  one stays. \<^verbatim>\<open>ORDER BY k DESC\<close> and \<^verbatim>\<open>ORDER BY k\<close> are stable sorts; SQLite leaves the order
  of rows with equal keys open, and so is the order in which a join is scanned.
\<close>

fun sql_distinct :: "('k \<times> 'r) list \<Rightarrow> ('k \<times> 'r) list" where
  "sql_distinct [] = []"
| "sql_distinct (x # xs) = x # sql_distinct (filter (\<lambda>y. snd y \<noteq> snd x) xs)"

definition order_by_desc :: "(int \<times> 'r) list \<Rightarrow> (int \<times> 'r) list" where
  "order_by_desc rows = sort_key (\<lambda>r. - fst r) rows"

definition order_by :: "(string \<times> 'r) list \<Rightarrow> (string \<times> 'r) list" where
  "order_by rows = sort_key fst rows"

text \<open>
  \<^verbatim>\<open>a LEFT JOIN b ON c\<close>: every row of \<open>a\<close> with each row of \<open>b\<close> that satisfies \<open>c\<close>, or
  with \<^verbatim>\<open>NULL\<close> when none does.
\<close>

definition left_join :: "'a list \<Rightarrow> 'b list \<Rightarrow> ('a \<Rightarrow> 'b \<Rightarrow> bool) \<Rightarrow> ('a \<times> 'b option) list" where
  "left_join xs ys on =
     concat (map (\<lambda>x. case filter (on x) ys of
                          [] \<Rightarrow> [(x, None)]
                        | m # ms \<Rightarrow> map (\<lambda>y. (x, Some y)) (m # ms)) xs)"

text \<open>
  \<^verbatim>\<open>datetime(x, 'unixepoch')\<close>: the UTC calendar time \<open>x\<close> seconds after 1970-01-01 00:00:00,
  in the proleptic Gregorian calendar, written \<^verbatim>\<open>YYYY-MM-DD HH:MM:SS\<close>; \<^verbatim>\<open>NULL\<close> outside the
  range of dates SQLite accepts (Julian day 0 up to the end of the year 9999).
\<close>

definition digit :: "int \<Rightarrow> char" where
  "digit n = char_of (48 + nat (n mod 10))"

definition pad2 :: "int \<Rightarrow> string" where
  "pad2 n = [digit (n div 10), digit n]"

definition pad4 :: "int \<Rightarrow> string" where
  "pad4 n = [digit (n div 1000), digit (n div 100), digit (n div 10), digit n]"

definition civil_from_days :: "int \<Rightarrow> int \<times> int \<times> int" where
  "civil_from_days z =
     (let z' = z + 719468;
          era = z' div 146097;
          doe = z' mod 146097;
          yoe = (doe - doe div 1460 + doe div 36524 - doe div 146096) div 365;
          doy = doe - (365 * yoe + yoe div 4 - yoe div 100);
          mp = (5 * doy + 2) div 153;
          d = doy - (153 * mp + 2) div 5 + 1;
          m = (if mp < 10 then mp + 3 else mp - 9);
          y = yoe + era * 400 + (if m \<le> 2 then 1 else 0)
      in (y, m, d))"

definition datetime_unixepoch :: "int \<Rightarrow> string option" where
  "datetime_unixepoch x =
     (if x < - 210866760000 \<or> 253402300799 < x then None
      else
        let (y, m, d) = civil_from_days (x div 86400);
            s = x mod 86400
        in Some ((if y < 0 then ''-'' @ pad4 (- y) else pad4 y) @ ''-'' @ pad2 m @ ''-'' @ pad2 d
                 @ '' '' @ pad2 (s div 3600) @ '':'' @ pad2 (s mod 3600 div 60) @ '':''
                 @ pad2 (s mod 60)))"

subsection \<open>Read operations (via SQLite)\<close>

text \<open>
  A row of a note query is the object the driver returns: the selected columns under their
  \<^verbatim>\<open>as\<close> names, \<open>None\<close> for a column the query does not select or for \<^verbatim>\<open>NULL\<close>. A \<open>Note\<close>
  is the object a read operation returns; \<open>None\<close> is an absent or \<^verbatim>\<open>undefined\<close> field.
\<close>

record row =
  r_id :: string
  r_title :: string
  r_content :: "string option"
  r_createdAt :: "string option"
  r_modifiedAt :: "string option"
  r_isTrashed :: "int option"

record Note =
  id' :: string
  title :: string
  content :: "string option"
  tags :: "string list option"
  createdAt :: "string option"
  modifiedAt :: "string option"
  isTrashed :: "bool option"

record Tag =
  name :: string
  noteCount :: nat

text \<open>
  The selected columns of a note query. Every query selects
  \<^verbatim>\<open>
  ZUNIQUEIDENTIFIER as id, ZTITLE as title,
  datetime(ZCREATIONDATE + 978307200, 'unixepoch') as createdAt,
  datetime(ZMODIFICATIONDATE + 978307200, 'unixepoch') as modifiedAt
  \<close>
  and some select \<^verbatim>\<open>ZTEXT as content\<close> (\<open>body\<close>) or \<^verbatim>\<open>ZTRASHED as isTrashed\<close> (\<open>flag\<close>).
\<close>

definition selected :: "bool \<Rightarrow> bool \<Rightarrow> note_row \<Rightarrow> row" where
  "selected body flag n =
     \<lparr>r_id = ZUNIQUEIDENTIFIER n, r_title = ZTITLE n,
      r_content = (if body then Some (ZTEXT n) else None),
      r_createdAt = datetime_unixepoch (ZCREATIONDATE n + 978307200),
      r_modifiedAt = datetime_unixepoch (ZMODIFICATIONDATE n + 978307200),
      r_isTrashed = (if flag then Some (ZTRASHED n) else None)\<rparr>"

text \<open>\<^verbatim>\<open>Boolean(note.isTrashed)\<close> on the integer of the column.\<close>

definition Boolean :: "int option \<Rightarrow> bool" where
  "Boolean v = (case v of None \<Rightarrow> False | Some n \<Rightarrow> n \<noteq> 0)"

text \<open>The truthiness of an optional string argument: \<^verbatim>\<open>undefined\<close> and the empty string are falsy.\<close>

fun truthy :: "string option \<Rightarrow> string option" where
  "truthy None = None"
| "truthy (Some s) = (if s = [] then None else Some s)"

text \<open>
  The query of \<^verbatim>\<open>getNoteTagsBatch\<close>:
  \<^verbatim>\<open>
  SELECT n.ZUNIQUEIDENTIFIER as noteId, t.ZTITLE as name
  FROM ZSFNOTETAG t JOIN Z_5TAGS nt ON t.Z_PK = nt.Z_13TAGS JOIN ZSFNOTE n ON nt.Z_5NOTES = n.Z_PK
  WHERE n.ZUNIQUEIDENTIFIER IN (...) ORDER BY t.ZTITLE
  \<close>
  A row is the pair of \<open>name\<close> and \<open>noteId\<close>.
\<close>

definition tags_query :: "string list \<Rightarrow> database \<Rightarrow> (string \<times> string) list" where
  "tags_query noteIds d =
     order_by
       [(TAG_TITLE t, ZUNIQUEIDENTIFIER n).
          t \<leftarrow> ZSFNOTETAG d, nt \<leftarrow> Z_5TAGS d, TAG_PK t = Z_13TAGS nt,
          n \<leftarrow> ZSFNOTE d, Z_5NOTES nt = Z_PK n,
          ZUNIQUEIDENTIFIER n \<in> set noteIds]"

text \<open>
  The loop of \<^verbatim>\<open>getNoteTagsBatch\<close> over the rows; the result object is a map from note
  identifiers to lists of tag names. (An identifier is taken not to be the name of a property
  that every JavaScript object inherits, such as \<^verbatim>\<open>constructor\<close>.)
\<close>

fun group_rows :: "(string \<times> string) list \<Rightarrow> (string \<rightharpoonup> string list) \<Rightarrow> (string \<rightharpoonup> string list)" where
  "group_rows [] result = result"
| "group_rows ((nm, noteId) # rows) result =
     group_rows rows
       (result(noteId \<mapsto> (case result noteId of None \<Rightarrow> [] | Some ns \<Rightarrow> ns) @ [nm]))"

definition getNoteTagsBatch :: "store \<Rightarrow> string list \<Rightarrow> error + (string \<rightharpoonup> string list)" where
  "getNoteTagsBatch st noteIds =
     (if length noteIds = 0 then Inr Map.empty
      else case getDatabase st of
             Inl e \<Rightarrow> Inl e
           | Inr db \<Rightarrow>
               (case run db (tags_query noteIds) of
                  Inl e \<Rightarrow> Inl e
                | Inr rows \<Rightarrow> Inr (group_rows rows Map.empty)))"

definition getNoteTags :: "store \<Rightarrow> string \<Rightarrow> error + string list" where
  "getNoteTags st noteId =
     (case getNoteTagsBatch st [noteId] of
        Inl e \<Rightarrow> Inl e
      | Inr m \<Rightarrow> Inr (case m noteId of None \<Rightarrow> [] | Some ns \<Rightarrow> ns))"

text \<open>
  The three queries of \<^verbatim>\<open>searchNotes\<close>. By tag (\<^verbatim>\<open>SELECT DISTINCT\<close> over the join, \<^verbatim>\<open>WHERE t.ZTITLE
  LIKE ? AND n.ZTRASHED = 0 AND n.ZARCHIVED = 0 ORDER BY n.ZMODIFICATIONDATE DESC LIMIT 100\<close>):
\<close>

definition search_by_tag :: "string \<Rightarrow> database \<Rightarrow> row list" where
  "search_by_tag pat d =
     map snd (take 100 (order_by_desc (sql_distinct
       [(ZMODIFICATIONDATE n,
         selected True True n).
          n \<leftarrow> ZSFNOTE d, nt \<leftarrow> Z_5TAGS d, Z_PK n = Z_5NOTES nt,
          t \<leftarrow> ZSFNOTETAG d, Z_13TAGS nt = TAG_PK t,
          like pat (TAG_TITLE t) \<and> ZTRASHED n = 0 \<and> ZARCHIVED n = 0])))"

text \<open>
  By text (\<^verbatim>\<open>WHERE (ZTITLE LIKE ? OR ZTEXT LIKE ?) AND ZTRASHED = 0 AND ZARCHIVED = 0 ORDER BY
  ZMODIFICATIONDATE DESC LIMIT 100\<close>):
\<close>

definition search_by_text :: "string \<Rightarrow> string \<Rightarrow> database \<Rightarrow> row list" where
  "search_by_text pat1 pat2 d =
     map snd (take 100 (order_by_desc
       [(ZMODIFICATIONDATE n,
         selected True True n).
          n \<leftarrow> ZSFNOTE d,
          (like pat1 (ZTITLE n) \<or> like pat2 (ZTEXT n)) \<and> ZTRASHED n = 0 \<and> ZARCHIVED n = 0]))"

text \<open>
  Recent notes (\<^verbatim>\<open>WHERE ZTRASHED = 0 AND ZARCHIVED = 0 ORDER BY ZMODIFICATIONDATE DESC LIMIT 50\<close>,
  the body not selected):
\<close>

definition recent_notes :: "database \<Rightarrow> row list" where
  "recent_notes d =
     map snd (take 50 (order_by_desc
       [(ZMODIFICATIONDATE n,
         selected False True n).
          n \<leftarrow> ZSFNOTE d, ZTRASHED n = 0 \<and> ZARCHIVED n = 0]))"

text \<open>
  The object \<^verbatim>\<open>searchNotes\<close> returns for a row:
  \<^verbatim>\<open>
  { ...note, isTrashed: Boolean(note.isTrashed), tags: tagsByNote[note.id] ?? [],
    content: undefined }
  \<close>
\<close>

definition search_note :: "(string \<rightharpoonup> string list) \<Rightarrow> row \<Rightarrow> Note" where
  "search_note tagsByNote note =
     \<lparr>id' = r_id note, title = r_title note, content = None,
      tags = Some (case tagsByNote (r_id note) of None \<Rightarrow> [] | Some ns \<Rightarrow> ns),
      createdAt = r_createdAt note, modifiedAt = r_modifiedAt note,
      isTrashed = Some (Boolean (r_isTrashed note))\<rparr>"

text \<open>
  A statement whose \<^verbatim>\<open>WHERE\<close> clause applies \<^verbatim>\<open>LIKE\<close> to the pattern \<open>pat\<close>. SQLite raises
  the error of a pattern that is too long at the first row on which it evaluates the
  operator; the model raises it for the statement as a whole, also on a store where no row
  gets that far and the code returns the empty list.
\<close>

fun run_like :: "connection \<Rightarrow> string \<Rightarrow> (database \<Rightarrow> 'a) \<Rightarrow> error + 'a" where
  "run_like (QueryFails e) pat q = Inl e"
| "run_like (Ready d) pat q =
     (if like_too_complex pat then Inl (External ''LIKE or GLOB pattern too complex'')
      else Inr (q d))"

text \<open>
  \<^verbatim>\<open>getDatabase()\<close> is called before the \<^verbatim>\<open>try\<close>, so its error passes unwrapped; an error of
  the body is wrapped by the \<^verbatim>\<open>catch\<close>. The branches choose the query and its parameters,
  and one call \<^verbatim>\<open>db.prepare(query).all(...params)\<close> runs it.
\<close>

definition searchNotes :: "store \<Rightarrow> string option \<Rightarrow> string option \<Rightarrow> error + Note list" where
  "searchNotes st term tag =
     (case getDatabase st of
        Inl e \<Rightarrow> Inl e
      | Inr db \<Rightarrow>
          (case
             (case
                (case truthy tag of
                   Some tg \<Rightarrow>
                     run_like db (''%'' @ tg @ ''%'') (search_by_tag (''%'' @ tg @ ''%''))
                 | None \<Rightarrow>
                     (case truthy term of
                        Some tm \<Rightarrow>
                          run_like db (''%'' @ tm @ ''%'')
                            (search_by_text (''%'' @ tm @ ''%'') (''%'' @ tm @ ''%''))
                      | None \<Rightarrow> run db recent_notes))
              of
                Inl e \<Rightarrow> Inl e
              | Inr rows \<Rightarrow>
                  (case getNoteTagsBatch st (map r_id rows) of
                     Inl e \<Rightarrow> Inl e
                   | Inr tagsByNote \<Rightarrow> Inr (map (search_note tagsByNote) rows)))
           of
             Inl e \<Rightarrow> Inl (DatabaseError ''Failed to search notes'' (Some e))
           | Inr notes \<Rightarrow> Inr notes))"

text \<open>
  The query of \<^verbatim>\<open>getNoteContent\<close> (\<^verbatim>\<open>WHERE ZUNIQUEIDENTIFIER = ?\<close>); \<^verbatim>\<open>.get\<close> returns the first row
  or nothing.
\<close>

definition note_by_id :: "string \<Rightarrow> database \<Rightarrow> row option" where
  "note_by_id noteId d =
     (case [selected True True n.
             n \<leftarrow> ZSFNOTE d, ZUNIQUEIDENTIFIER n = noteId] of
        [] \<Rightarrow> None
      | r # rs \<Rightarrow> Some r)"

definition getNoteContent :: "store \<Rightarrow> string \<Rightarrow> error + Note option" where
  "getNoteContent st noteId =
     (case getDatabase st of
        Inl e \<Rightarrow> Inl e
      | Inr db \<Rightarrow>
          (case
             (case run db (note_by_id noteId) of
                Inl e \<Rightarrow> Inl e
              | Inr None \<Rightarrow> Inr None
              | Inr (Some note) \<Rightarrow>
                  (case getNoteTags st noteId of
                     Inl e \<Rightarrow> Inl e
                   | Inr ts \<Rightarrow>
                       Inr (Some
                         \<lparr>id' = r_id note, title = r_title note, content = r_content note,
                          tags = Some ts,
                          createdAt = r_createdAt note, modifiedAt = r_modifiedAt note,
                          isTrashed = Some (Boolean (r_isTrashed note))\<rparr>)))
           of
             Inl e \<Rightarrow> Inl (DatabaseError ''Failed to get note content'' (Some e))
           | Inr r \<Rightarrow> Inr r))"

text \<open>
  The query of \<^verbatim>\<open>listNotesByTag\<close> (\<^verbatim>\<open>SELECT DISTINCT\<close> of identifier, title and the two
  timestamps over the join, \<^verbatim>\<open>WHERE LOWER(t.ZTITLE) = LOWER(?) AND n.ZTRASHED = 0 AND n.ZARCHIVED
  = 0 ORDER BY n.ZMODIFICATIONDATE DESC LIMIT 100\<close>):
\<close>

definition notes_by_tag :: "string \<Rightarrow> database \<Rightarrow> row list" where
  "notes_by_tag tag d =
     map snd (take 100 (order_by_desc (sql_distinct
       [(ZMODIFICATIONDATE n,
         selected False False n).
          n \<leftarrow> ZSFNOTE d, nt \<leftarrow> Z_5TAGS d, Z_PK n = Z_5NOTES nt,
          t \<leftarrow> ZSFNOTETAG d, Z_13TAGS nt = TAG_PK t,
          map sql_lower (TAG_TITLE t) = map sql_lower tag \<and> ZTRASHED n = 0 \<and> ZARCHIVED n = 0])))"

text \<open>
  \<^verbatim>\<open>listNotesByTag\<close> and \<^verbatim>\<open>listArchivedNotes\<close> spread the row and add the tags. Their queries
  select no \<^verbatim>\<open>isTrashed\<close> column, so the field is absent from the result.
\<close>

definition with_tags :: "(string \<rightharpoonup> string list) \<Rightarrow> row \<Rightarrow> Note" where
  "with_tags tagsByNote note =
     \<lparr>id' = r_id note, title = r_title note, content = r_content note,
      tags = Some (case tagsByNote (r_id note) of None \<Rightarrow> [] | Some ns \<Rightarrow> ns),
      createdAt = r_createdAt note, modifiedAt = r_modifiedAt note,
      isTrashed = None\<rparr>"

definition listNotesByTag :: "store \<Rightarrow> string \<Rightarrow> error + Note list" where
  "listNotesByTag st tag =
     (case getDatabase st of
        Inl e \<Rightarrow> Inl e
      | Inr db \<Rightarrow>
          (case
             (case run db (notes_by_tag tag) of
                Inl e \<Rightarrow> Inl e
              | Inr rows \<Rightarrow>
                  (case getNoteTagsBatch st (map r_id rows) of
                     Inl e \<Rightarrow> Inl e
                   | Inr tagsByNote \<Rightarrow> Inr (map (with_tags tagsByNote) rows)))
           of
             Inl e \<Rightarrow> Inl (DatabaseError ''Failed to list notes by tag'' (Some e))
           | Inr notes \<Rightarrow> Inr notes))"

text \<open>
  The query of \<^verbatim>\<open>getAllTags\<close>:
  \<^verbatim>\<open>
  SELECT t.ZTITLE as name,
    COUNT(DISTINCT CASE WHEN n.ZTRASHED = 0 AND n.ZARCHIVED = 0 THEN n.Z_PK END) as noteCount
  FROM ZSFNOTETAG t LEFT JOIN Z_5TAGS nt ON t.Z_PK = nt.Z_13TAGS
                    LEFT JOIN ZSFNOTE n ON nt.Z_5NOTES = n.Z_PK
  GROUP BY t.ZTITLE HAVING noteCount > 0 ORDER BY t.ZTITLE
  \<close>
  \<open>tag_join\<close> is the joined table, \<open>counted_pk\<close> the \<^verbatim>\<open>CASE\<close> expression (\<^verbatim>\<open>NULL\<close> without
  an \<^verbatim>\<open>ELSE\<close>), and \<^verbatim>\<open>COUNT(DISTINCT e)\<close> counts the distinct values of \<open>e\<close> that are not
  \<^verbatim>\<open>NULL\<close>. The groups come in the order of their key.
\<close>

definition tag_join :: "database \<Rightarrow> ((tag_row \<times> link_row option) \<times> note_row option) list" where
  "tag_join d =
     left_join (left_join (ZSFNOTETAG d) (Z_5TAGS d) (\<lambda>t nt. TAG_PK t = Z_13TAGS nt)) (ZSFNOTE d)
       (\<lambda>(t, nt) n. case nt of None \<Rightarrow> False | Some l \<Rightarrow> Z_5NOTES l = Z_PK n)"

definition counted_pk :: "note_row option \<Rightarrow> int option" where
  "counted_pk n =
     (case n of
        None \<Rightarrow> None
      | Some r \<Rightarrow> if ZTRASHED r = 0 \<and> ZARCHIVED r = 0 then Some (Z_PK r) else None)"

definition count_distinct :: "int option list \<Rightarrow> nat" where
  "count_distinct vs = length (remdups [v. Some v \<leftarrow> vs])"

definition all_tags :: "database \<Rightarrow> Tag list" where
  "all_tags d =
     (let joined = tag_join d;
          groups = sort (remdups (map (\<lambda>((t, nt), n). TAG_TITLE t) joined))
      in filter (\<lambda>g. noteCount g > 0)
           (map (\<lambda>k. \<lparr>name = k,
                       noteCount = count_distinct
                         [counted_pk n. ((t, nt), n) \<leftarrow> joined, TAG_TITLE t = k]\<rparr>) groups))"

definition getAllTags :: "store \<Rightarrow> error + Tag list" where
  "getAllTags st =
     (case getDatabase st of
        Inl e \<Rightarrow> Inl e
      | Inr db \<Rightarrow>
          (case run db all_tags of
             Inl e \<Rightarrow> Inl (DatabaseError ''Failed to get tags'' (Some e))
           | Inr ts \<Rightarrow> Inr ts))"

text \<open>
  The query of \<^verbatim>\<open>listArchivedNotes\<close> (\<^verbatim>\<open>WHERE ZARCHIVED = 1 AND ZTRASHED = 0 ORDER BY
  ZMODIFICATIONDATE DESC LIMIT 100\<close>, the body and the trashed flag not selected):
\<close>

definition archived_notes :: "database \<Rightarrow> row list" where
  "archived_notes d =
     map snd (take 100 (order_by_desc
       [(ZMODIFICATIONDATE n,
         selected False False n).
          n \<leftarrow> ZSFNOTE d, ZARCHIVED n = 1 \<and> ZTRASHED n = 0]))"

definition listArchivedNotes :: "store \<Rightarrow> error + Note list" where
  "listArchivedNotes st =
     (case getDatabase st of
        Inl e \<Rightarrow> Inl e
      | Inr db \<Rightarrow>
          (case
             (case run db archived_notes of
                Inl e \<Rightarrow> Inl e
              | Inr rows \<Rightarrow>
                  (case getNoteTagsBatch st (map r_id rows) of
                     Inl e \<Rightarrow> Inl e
                   | Inr tagsByNote \<Rightarrow> Inr (map (with_tags tagsByNote) rows)))
           of
             Inl e \<Rightarrow> Inl (DatabaseError ''Failed to list archived notes'' (Some e))
           | Inr notes \<Rightarrow> Inr notes))"

subsection \<open>The tool handlers\<close>

text \<open>
  A tool result holds one text item and the error flag. The text is a string, or the
  \<^verbatim>\<open>JSON.stringify\<close> of a value, kept as the value. Every handler catches what its operation
  throws and returns \<^verbatim>\<open>handleError(error)\<close>; all errors of the model are instances of
  \<^verbatim>\<open>Error\<close>, so the message of the result is the error's.
\<close>

datatype tool_text = Text string | Json_Note Note | Json_Notes "Note list"

record ToolResult =
  result_text :: tool_text
  isError :: bool

definition handleError :: "error \<Rightarrow> world \<Rightarrow> ToolResult \<times> world" where
  "handleError e w =
     (\<lparr>result_text = Text (''Error: '' @ message e), isError = True\<rparr>,
      logger LError ''Tool execution failed'' [(''error'', VError e)] w)"

text \<open>An optional array argument of a handler, as the value the operation receives.\<close>

fun optional_tags :: "string list option \<Rightarrow> js_tags" where
  "optional_tags None = Undefined"
| "optional_tags (Some ts) = Arr ts"

definition bear_create_note ::
  "opener \<Rightarrow> string \<Rightarrow> string \<Rightarrow> string list option \<Rightarrow> world \<Rightarrow> ToolResult \<times> world" where
  "bear_create_note exec ttl txt tgs w =
     (case createNote exec ttl txt (optional_tags tgs) w of
        (Inl e, w') \<Rightarrow> handleError e w'
      | (Inr u, w') \<Rightarrow> (\<lparr>result_text = Text (''Created note: '' @ ttl), isError = False\<rparr>, w'))"

definition bear_search ::
  "store \<Rightarrow> string option \<Rightarrow> string option \<Rightarrow> world \<Rightarrow> ToolResult \<times> world" where
  "bear_search st term tag w =
     (case searchNotes st term tag of
        Inl e \<Rightarrow> handleError e w
      | Inr notes \<Rightarrow> (\<lparr>result_text = Json_Notes notes, isError = False\<rparr>, w))"

definition bear_get_note :: "store \<Rightarrow> string \<Rightarrow> world \<Rightarrow> ToolResult \<times> world" where
  "bear_get_note st noteId w =
     (case getNoteContent st noteId of
        Inl e \<Rightarrow> handleError e w
      | Inr None \<Rightarrow> (\<lparr>result_text = Text (''Note not found: '' @ noteId), isError = True\<rparr>, w)
      | Inr (Some note) \<Rightarrow> (\<lparr>result_text = Json_Note note, isError = False\<rparr>, w))"

text \<open>
  The handler of \<^verbatim>\<open>bear_replace_content\<close> calls
  \<^verbatim>\<open>replaceNoteContent(noteId, title, text, tags)\<close>, and \<^verbatim>\<open>replaceNoteContent\<close> declares the three
  parameters \<^verbatim>\<open>(noteId, text, tags)\<close>. A call binds arguments to parameters by position and
  drops the ones beyond the last parameter: the title arrives as \<^verbatim>\<open>text\<close>, the text, a string,
  arrives as \<^verbatim>\<open>tags\<close>, and the tag list is dropped.
\<close>

definition bear_replace_content ::
  "opener \<Rightarrow> string \<Rightarrow> string \<Rightarrow> string \<Rightarrow> string list option \<Rightarrow> world \<Rightarrow> ToolResult \<times> world" where
  "bear_replace_content exec noteId ttl txt tgs w =
     (case replaceNoteContent exec noteId ttl (Str txt) w of
        (Inl e, w') \<Rightarrow> handleError e w'
      | (Inr u, w') \<Rightarrow>
          (\<lparr>result_text = Text (''Replaced content of note: '' @ noteId), isError = False\<rparr>, w'))"

subsection \<open>Notions of the specification\<close>

text \<open>
  A name contains a filter case-insensitively when the folded filter is a contiguous part of
  the folded name. A note qualifies when it is neither trashed nor archived, and it bears a
  tag name when the join relation links it to a tag row of that name.
\<close>

definition contains_ci :: "string \<Rightarrow> string \<Rightarrow> bool" where
  "contains_ci t s \<longleftrightarrow> sublist (map sql_lower t) (map sql_lower s)"

definition qualifies :: "note_row \<Rightarrow> bool" where
  "qualifies n \<longleftrightarrow> ZTRASHED n = 0 \<and> ZARCHIVED n = 0"

definition bears :: "database \<Rightarrow> note_row \<Rightarrow> string \<Rightarrow> bool" where
  "bears d n nm \<longleftrightarrow>
     list_ex (\<lambda>l. Z_5NOTES l = Z_PK n \<and>
                  list_ex (\<lambda>t. TAG_PK t = Z_13TAGS l \<and> TAG_TITLE t = nm) (ZSFNOTETAG d))
       (Z_5TAGS d)"

definition qualifying :: "database \<Rightarrow> string \<Rightarrow> note_row set" where
  "qualifying d nm = {n \<in> set (ZSFNOTE d). qualifies n \<and> bears d n nm}"








text \<open>
  The timestamps of a returned note are converted when they are the readings, as Unix time,
  of the stored offsets of a note row of that identifier plus 978307200 seconds.
\<close>

definition converted :: "database \<Rightarrow> Note \<Rightarrow> bool" where
  "converted d x \<longleftrightarrow>
     list_ex (\<lambda>n. ZUNIQUEIDENTIFIER n = id' x \<and>
                  createdAt x = datetime_unixepoch (ZCREATIONDATE n + 978307200) \<and>
                  modifiedAt x = datetime_unixepoch (ZMODIFICATIONDATE n + 978307200))
       (ZSFNOTE d)"

text \<open>
  Inputs of the examples: a store of four notes, the third one trashed and the fourth one
  archived, and two tags, of which \<^verbatim>\<open>idle\<close> is on the trashed note only.
\<close>

definition example_db :: database where
  "example_db =
     \<lparr>ZSFNOTE =
        [\<lparr>Z_PK = 1, ZUNIQUEIDENTIFIER = ''A1'', ZTITLE = ''x'', ZTEXT = ''body'',
          ZCREATIONDATE = 0, ZMODIFICATIONDATE = 100, ZTRASHED = 0, ZARCHIVED = 0\<rparr>,
         \<lparr>Z_PK = 2, ZUNIQUEIDENTIFIER = ''B2'', ZTITLE = ''y'', ZTEXT = ''other'',
          ZCREATIONDATE = 0, ZMODIFICATIONDATE = 200, ZTRASHED = 0, ZARCHIVED = 0\<rparr>,
         \<lparr>Z_PK = 3, ZUNIQUEIDENTIFIER = ''C3'', ZTITLE = ''z'', ZTEXT = ''gone'',
          ZCREATIONDATE = 0, ZMODIFICATIONDATE = 300, ZTRASHED = 1, ZARCHIVED = 0\<rparr>,
         \<lparr>Z_PK = 4, ZUNIQUEIDENTIFIER = ''D4'', ZTITLE = ''x too'', ZTEXT = ''kept'',
          ZCREATIONDATE = 0, ZMODIFICATIONDATE = 400, ZTRASHED = 0, ZARCHIVED = 1\<rparr>],
      ZSFNOTETAG =
        [\<lparr>TAG_PK = 10, TAG_TITLE = ''Work''\<rparr>, \<lparr>TAG_PK = 11, TAG_TITLE = ''idle''\<rparr>],
      Z_5TAGS =
        [\<lparr>Z_5NOTES = 1, Z_13TAGS = 10\<rparr>, \<lparr>Z_5NOTES = 3, Z_13TAGS = 11\<rparr>,
         \<lparr>Z_5NOTES = 3, Z_13TAGS = 10\<rparr>, \<lparr>Z_5NOTES = 4, Z_13TAGS = 10\<rparr>]\<rparr>"

definition example_store :: store where
  "example_store = Opens (Ready example_db)"


definition world0 :: world where
  "world0 = \<lparr>opened = [], logged = []\<rparr>"

definition open_ok :: opener where
  "open_ok url = None"

definition open_unavailable :: opener where
  "open_unavailable url = Some ''spawn open ENOENT''"

section \<open>The write path\<close>

lemmas write_defs =
  callBearUrl_def execFileAsync_def bear_url_def then_info_def logger_def encodeURIComponent_def encode_char_def
  unreserved_def pct_def hexdigit_def newline_def world0_def open_ok_def open_unavailable_def

text \<open>
  C5. A call of create-note with a non-empty tag list dispatches the action \<^verbatim>\<open>create\<close> with the
  title and with a text parameter that is the tag names, each prefixed with \<^verbatim>\<open>#\<close> and joined by
  single spaces, then a blank line, then the body text.
\<close>

theorem createNote_text_parameter:
  assumes "tgs \<noteq> []"
  shows "let full = join '' '' (map (\<lambda>t. CHR ''#'' # t) tgs) @ [newline, newline] @ txt in
         createNote exec ttl txt (Arr tgs) w =
           then_info
             (callBearUrl exec ''create'' [(''title'', ttl), (''text'', full)] w)
             ''Created note'' [(''title'', VString ttl), (''tags'', VTags (Arr tgs))] \<and>
         (exec (bear_url ''create'' [(''title'', ttl), (''text'', full)]) = None \<longrightarrow>
          opened (snd (createNote exec ttl txt (Arr tgs) w)) =
            opened w @ [''bear://x-callback-url/create?title='' @ encodeURIComponent ttl @
                        ''&text='' @ encodeURIComponent full])"
proof -
  define full where "full = join '' '' (map (\<lambda>t. CHR ''#'' # t) tgs) @ [newline, newline] @ txt"
  have c: "createNote exec ttl txt (Arr tgs) w =
           then_info
             (callBearUrl exec ''create'' [(''title'', ttl), (''text'', full)] w)
             ''Created note'' [(''title'', VString ttl), (''tags'', VTags (Arr tgs))]"
    using assms by (simp add: createNote_def full_def)
  have u: "bear_url ''create'' [(''title'', ttl), (''text'', full)] =
             ''bear://x-callback-url/create?title='' @ encodeURIComponent ttl @
             ''&text='' @ encodeURIComponent full"
    by (simp add: bear_url_def)
  have "opened (snd (createNote exec ttl txt (Arr tgs) w)) =
            opened w @ [''bear://x-callback-url/create?title='' @ encodeURIComponent ttl @
                        ''&text='' @ encodeURIComponent full]"
    if "exec (bear_url ''create'' [(''title'', ttl), (''text'', full)]) = None"
    unfolding c using that
    by (simp add: callBearUrl_def execFileAsync_def then_info_def logger_def u)
  with c show ?thesis
    unfolding full_def Let_def by blast
qed

text \<open>
  The scenario of the specification: create-note("X", "body", ["a","b"]) opens the URL whose
  text parameter is the encoding of \<^verbatim>\<open>#a #b\<close>, two line feeds and \<^verbatim>\<open>body\<close>.
\<close>

theorem createNote_text_parameter_witness:
  "[''a'', ''b''] \<noteq> ([] :: string list) \<and>
   open_ok (bear_url ''create''
     [(''title'', ''X''),
      (''text'', join '' '' (map (\<lambda>t. CHR ''#'' # t) [''a'', ''b'']) @ [newline, newline] @ ''body'')])
     = None \<and>
   opened (snd (createNote open_ok ''X'' ''body'' (Arr [''a'', ''b'']) world0)) =
     [''bear://x-callback-url/create?title=X&text=%23a%20%23b%0A%0Abody'']"
proof -
  have h: "[''a'', ''b''] \<noteq> ([] :: string list)" by simp
  have o: "open_ok (bear_url ''create'' [(''title'', ''X''),
      (''text'', join '' '' (map (\<lambda>t. CHR ''#'' # t) [''a'', ''b'']) @ [newline, newline] @ ''body'')])
     = None"
    by (simp add: open_ok_def)
  from createNote_text_parameter [OF h, of "''body''" open_ok "''X''" world0] o
  have "opened (snd (createNote open_ok ''X'' ''body'' (Arr [''a'', ''b'']) world0)) =
     [''bear://x-callback-url/create?title=X&text=%23a%20%23b%0A%0Abody'']"
    by (simp add: Let_def write_defs)
  with h o show ?thesis by blast
qed

subsection \<open>Reading the parameters back from the URL\<close>






















text \<open>
  C1. The tool \<^verbatim>\<open>bear_replace_content\<close> documents the order title, tags, content, and the
  operation it calls has no title parameter. With the note N, the title T, the text
  \<^verbatim>\<open>body\<close> and the tag a, the handler dispatches nothing and returns an error result; and
  \<^verbatim>\<open>replaceNoteContent\<close>, called with its own three parameters, dispatches the tag line and the
  body with no title line.
\<close>

theorem replace_content_without_title:
  "bear_replace_content open_ok ''N'' ''T'' ''body'' (Some [''a'']) world0 =
     (\<lparr>result_text = Text ''Error: tags.map is not a function'', isError = True\<rparr>,
      \<lparr>opened = [],
       logged = [(LError, ''Tool execution failed'',
                  [(''error'', VError (TypeError ''tags.map is not a function''))])]\<rparr>) \<and>
   opened (snd (replaceNoteContent open_ok ''N'' ''body'' (Arr [''a'']) world0)) =
     [''bear://x-callback-url/add-text?id=N&text=%23a%0A%0Abody&mode=replace_all'']"
  by (simp add: write_defs replaceNoteContent_def bear_replace_content_def handleError_def)

section \<open>The read path\<close>

subsection \<open>Rows of the queries\<close>

lemma set_sql_distinct: "set (sql_distinct xs) \<subseteq> set xs"
  by (induction xs rule: sql_distinct.induct) auto

lemma set_order_by_desc: "set (order_by_desc xs) = set xs"
  by (simp add: order_by_desc_def)

lemma sorted_order_by_desc: "sorted_wrt (\<ge>) (map fst (order_by_desc xs))"
proof -
  have "sorted (map (\<lambda>r. - fst r) (order_by_desc xs))"
    unfolding order_by_desc_def by (rule sorted_sort_key)
  then show ?thesis
    by (simp add: sorted_wrt_map)
qed

lemma rows_of_pipeline:
  fixes f :: "note_row \<Rightarrow> 'r"
  assumes "set qs \<subseteq> (\<lambda>n. (ZMODIFICATIONDATE n, f n)) ` S"
  shows "\<exists>ns. map snd (take k (order_by_desc qs)) = map f ns \<and> set ns \<subseteq> S \<and>
              sorted_wrt (\<ge>) (map ZMODIFICATIONDATE ns) \<and> length ns \<le> k"
proof -
  let ?ps = "take k (order_by_desc qs)"
  have sub: "set ?ps \<subseteq> (\<lambda>n. (ZMODIFICATIONDATE n, f n)) ` S"
    using assms set_take_subset [of k "order_by_desc qs"] by (auto simp: set_order_by_desc)
  then have "\<forall>p\<in>set ?ps. \<exists>n. n \<in> S \<and> p = (ZMODIFICATIONDATE n, f n)"
    by auto
  then obtain g where g: "\<forall>p\<in>set ?ps. g p \<in> S \<and> p = (ZMODIFICATIONDATE (g p), f (g p))"
    by metis
  let ?ns = "map g ?ps"
  have 1: "map snd ?ps = map f ?ns"
    using g by (auto simp: comp_def)
  have 2: "map fst ?ps = map ZMODIFICATIONDATE ?ns"
    using g by (auto simp: comp_def)
  have "sorted_wrt (\<ge>) (map fst ?ps)"
    using sorted_order_by_desc [of qs] by (simp add: take_map [symmetric] sorted_wrt_take)
  then have 3: "sorted_wrt (\<ge>) (map ZMODIFICATIONDATE ?ns)"
    by (simp only: 2)
  have 4: "set ?ns \<subseteq> S" using g by auto
  have 5: "length ?ns \<le> k" by simp
  from 1 3 4 5 show ?thesis by blast
qed




lemma group_rows_set:
  "(case group_rows rows m k of None \<Rightarrow> {} | Some ns \<Rightarrow> set ns) =
   (case m k of None \<Rightarrow> {} | Some ns \<Rightarrow> set ns) \<union> {nm. (nm, k) \<in> set rows}"
proof (induction rows arbitrary: m)
  case Nil
  show ?case by simp
next
  case (Cons r rows)
  obtain nm i where r: "r = (nm, i)" by (cases r)
  let ?m' = "m(i \<mapsto> (case m i of None \<Rightarrow> [] | Some ns \<Rightarrow> ns) @ [nm])"
  have step: "(case ?m' k of None \<Rightarrow> {} | Some ns \<Rightarrow> set ns) =
              (case m k of None \<Rightarrow> {} | Some ns \<Rightarrow> set ns) \<union> (if k = i then {nm} else {})"
    by (cases "m i") simp_all
  have "(case group_rows (r # rows) m k of None \<Rightarrow> {} | Some ns \<Rightarrow> set ns) =
        (case ?m' k of None \<Rightarrow> {} | Some ns \<Rightarrow> set ns) \<union> {nm. (nm, k) \<in> set rows}"
    unfolding r group_rows.simps by (rule Cons.IH)
  also have "\<dots> = (case m k of None \<Rightarrow> {} | Some ns \<Rightarrow> set ns) \<union> {nm. (nm, k) \<in> set (r # rows)}"
    unfolding step r by auto
  finally show ?case .
qed


lemma set_tags_query:
  "set (tags_query ids d) =
     {(TAG_TITLE t, ZUNIQUEIDENTIFIER n) | t l n.
        t \<in> set (ZSFNOTETAG d) \<and> l \<in> set (Z_5TAGS d) \<and> n \<in> set (ZSFNOTE d) \<and>
        TAG_PK t = Z_13TAGS l \<and> Z_5NOTES l = Z_PK n \<and> ZUNIQUEIDENTIFIER n \<in> set ids}"
  by (auto simp: tags_query_def order_by_def)

lemma bears_iff:
  "bears d n nm \<longleftrightarrow>
     (\<exists>l\<in>set (Z_5TAGS d). \<exists>t\<in>set (ZSFNOTETAG d).
        Z_5NOTES l = Z_PK n \<and> TAG_PK t = Z_13TAGS l \<and> TAG_TITLE t = nm)"
  by (auto simp: bears_def list_ex_iff)

lemma getNoteTagsBatch_Ready:
  "getNoteTagsBatch (Opens (Ready d)) ids =
     Inr (if ids = [] then Map.empty else group_rows (tags_query ids d) Map.empty)"
  by (simp add: getNoteTagsBatch_def)

lemma batch_tags:
  assumes "getNoteTagsBatch (Opens (Ready d)) ids = Inr m" and "k \<in> set ids"
  shows "set (case m k of None \<Rightarrow> [] | Some ns \<Rightarrow> ns) =
           {nm. \<exists>n\<in>set (ZSFNOTE d). ZUNIQUEIDENTIFIER n = k \<and> bears d n nm}"
proof -
  from assms have m: "m = group_rows (tags_query ids d) Map.empty"
    by (auto simp: getNoteTagsBatch_Ready split: if_splits)
  have "set (case m k of None \<Rightarrow> [] | Some ns \<Rightarrow> ns) =
          (case m k of None \<Rightarrow> {} | Some ns \<Rightarrow> set ns)"
    by (simp split: option.split)
  also have "\<dots> = {nm. (nm, k) \<in> set (tags_query ids d)}"
    unfolding m by (simp add: group_rows_set)
  also have "\<dots> = {nm. \<exists>n\<in>set (ZSFNOTE d). ZUNIQUEIDENTIFIER n = k \<and> bears d n nm}"
    using assms(2) by (auto simp: set_tags_query bears_iff)
  finally show ?thesis .
qed

lemma like_percent:
  "like_match (CHR ''%'' # ps) s \<Longrightarrow> \<exists>u v. s = u @ v \<and> like_match ps v"
proof (induction s)
  case Nil
  then show ?case by simp
next
  case (Cons c cs)
  from Cons.prems have "like_match ps (c # cs) \<or> like_match (CHR ''%'' # ps) cs" by simp
  then show ?case
  proof
    assume "like_match ps (c # cs)"
    then have "c # cs = [] @ (c # cs) \<and> like_match ps (c # cs)" by simp
    then show ?thesis by blast
  next
    assume "like_match (CHR ''%'' # ps) cs"
    with Cons.IH obtain u v where "cs = u @ v" "like_match ps v" by blast
    then have "c # cs = (c # u) @ v \<and> like_match ps v" by simp
    then show ?thesis by blast
  qed
qed

lemma like_literal:
  assumes "CHR ''%'' \<notin> set t" and "CHR ''_'' \<notin> set t" and "like_match (t @ ps) s"
  shows "\<exists>u v. s = u @ v \<and> map sql_lower u = map sql_lower t \<and> like_match ps v"
  using assms
proof (induction t arbitrary: s)
  case Nil
  then have "s = [] @ s \<and> map sql_lower [] = map sql_lower ([] :: string) \<and> like_match ps s" by simp
  then show ?case by blast
next
  case (Cons a t)
  from Cons.prems have a: "a \<noteq> CHR ''%''" "a \<noteq> CHR ''_''" by auto
  show ?case
  proof (cases s)
    case Nil
    with Cons.prems a show ?thesis by simp
  next
    case (Cons c cs)
    with Cons.prems a have c: "sql_lower a = sql_lower c" and l: "like_match (t @ ps) cs" by auto
    from Cons.prems have "CHR ''%'' \<notin> set t" "CHR ''_'' \<notin> set t" by auto
    with Cons.IH l obtain u v where uv: "cs = u @ v" "map sql_lower u = map sql_lower t" "like_match ps v"
      by blast
    with c Cons have "s = (c # u) @ v \<and> map sql_lower (c # u) = map sql_lower (a # t) \<and> like_match ps v"
      by simp
    then show ?thesis by blast
  qed
qed

lemma c_string_prefix: "\<exists>r. s = c_string s @ r"
  unfolding c_string_def by (metis takeWhile_dropWhile_id)

lemma c_string_id: "CHR 0x00 \<notin> set s \<Longrightarrow> c_string s = s"
  unfolding c_string_def by (auto simp: takeWhile_eq_all_conv)

lemma like_contains:
  assumes "CHR ''%'' \<notin> set t" and "CHR ''_'' \<notin> set t" and "CHR 0x00 \<notin> set t"
    and "like (''%'' @ t @ ''%'') s"
  shows "contains_ci t s"
proof -
  from assms(3) have "CHR 0x00 \<notin> set (''%'' @ t @ ''%'')" by simp
  then have "c_string (''%'' @ t @ ''%'') = ''%'' @ t @ ''%''" by (rule c_string_id)
  with assms(4) have "like_match (CHR ''%'' # (t @ ''%'')) (c_string s)"
    by (simp add: like_def)
  then obtain u v where s: "c_string s = u @ v" and v: "like_match (t @ ''%'') v"
    using like_percent by blast
  from like_literal [OF assms(1,2) v]
  obtain u' v' where v': "v = u' @ v'" "map sql_lower u' = map sql_lower t" by blast
  obtain r where "s = c_string s @ r" using c_string_prefix by blast
  then have "s = u @ u' @ v' @ r" using s v' by simp
  then have "map sql_lower s = map sql_lower u @ map sql_lower t @ map sql_lower (v' @ r)"
    using v'(2) by (metis map_append)
  then show ?thesis
    unfolding contains_ci_def sublist_def by blast
qed

lemma recent_notes_rows:
  "\<exists>ns. recent_notes d = map (selected False True) ns \<and>
        set ns \<subseteq> {n \<in> set (ZSFNOTE d). qualifies n} \<and>
        sorted_wrt (\<ge>) (map ZMODIFICATIONDATE ns) \<and> length ns \<le> 50"
  unfolding recent_notes_def
  by (rule rows_of_pipeline) (auto simp: qualifies_def)

lemma search_by_tag_rows:
  "\<exists>ns. search_by_tag pat d = map (selected True True) ns \<and>
        set ns \<subseteq> {n \<in> set (ZSFNOTE d). qualifies n \<and> (\<exists>nm. bears d n nm \<and> like pat nm)} \<and>
        sorted_wrt (\<ge>) (map ZMODIFICATIONDATE ns) \<and> length ns \<le> 100"
  unfolding search_by_tag_def
proof (rule rows_of_pipeline)
  let ?ps = "[(ZMODIFICATIONDATE n, selected True True n).
          n \<leftarrow> ZSFNOTE d, nt \<leftarrow> Z_5TAGS d, Z_PK n = Z_5NOTES nt,
          t \<leftarrow> ZSFNOTETAG d, Z_13TAGS nt = TAG_PK t,
          like pat (TAG_TITLE t) \<and> ZTRASHED n = 0 \<and> ZARCHIVED n = 0]"
  let ?S = "{n \<in> set (ZSFNOTE d). qualifies n \<and> (\<exists>nm. bears d n nm \<and> like pat nm)}"
  have "p \<in> (\<lambda>n. (ZMODIFICATIONDATE n, selected True True n)) ` ?S" if "p \<in> set ?ps" for p
  proof -
    from that obtain n l t where n: "n \<in> set (ZSFNOTE d)" "l \<in> set (Z_5TAGS d)"
      "t \<in> set (ZSFNOTETAG d)" "Z_PK n = Z_5NOTES l" "Z_13TAGS l = TAG_PK t"
      "like pat (TAG_TITLE t)" "ZTRASHED n = 0" "ZARCHIVED n = 0"
      and p: "p = (ZMODIFICATIONDATE n, selected True True n)"
      by auto
    have "bears d n (TAG_TITLE t)"
      unfolding bears_iff using n(2,3) n(4) [symmetric] n(5) [symmetric] by blast
    with n have "n \<in> ?S"
      by (auto simp: qualifies_def)
    with p show ?thesis by blast
  qed
  then have "set ?ps \<subseteq> (\<lambda>n. (ZMODIFICATIONDATE n, selected True True n)) ` ?S"
    by blast
  with set_sql_distinct [of ?ps]
  show "set (sql_distinct ?ps) \<subseteq> (\<lambda>n. (ZMODIFICATIONDATE n, selected True True n)) `
          {n \<in> set (ZSFNOTE d). qualifies n \<and> (\<exists>nm. bears d n nm \<and> like pat nm)}"
    by (rule subset_trans)
qed

subsection \<open>Search\<close>

lemma searchNotes_recent:
  assumes "truthy tag = None" and "truthy trm = None"
  shows "\<exists>m. getNoteTagsBatch (Opens (Ready d)) (map r_id (recent_notes d)) = Inr m \<and>
             searchNotes (Opens (Ready d)) trm tag = Inr (map (search_note m) (recent_notes d))"
  unfolding searchNotes_def using assms
  by (simp add: getNoteTagsBatch_Ready)

lemma searchNotes_by_text:
  assumes "truthy tag = None" and "truthy trm = Some tm"
    and "\<not> like_too_complex (''%'' @ tm @ ''%'')" and "rows = search_by_text (''%'' @ tm @ ''%'') (''%'' @ tm @ ''%'') d"
  shows "\<exists>m. getNoteTagsBatch (Opens (Ready d)) (map r_id rows) = Inr m \<and>
             searchNotes (Opens (Ready d)) trm tag = Inr (map (search_note m) rows)"
  unfolding searchNotes_def using assms
  by (simp add: getNoteTagsBatch_Ready)

lemma searchNotes_by_tag:
  assumes "truthy tag = Some tg"
    and "\<not> like_too_complex (''%'' @ tg @ ''%'')" and "rows = search_by_tag (''%'' @ tg @ ''%'') d"
  shows "\<exists>m. getNoteTagsBatch (Opens (Ready d)) (map r_id rows) = Inr m \<and>
             searchNotes (Opens (Ready d)) trm tag = Inr (map (search_note m) rows)"
  unfolding searchNotes_def using assms
  by (simp add: getNoteTagsBatch_Ready)

lemma searchNotes_too_complex:
  "truthy tag = Some tg \<Longrightarrow> like_too_complex (''%'' @ tg @ ''%'') \<Longrightarrow>
     \<exists>e. searchNotes (Opens (Ready d)) trm tag = Inl e"
  "truthy tag = None \<Longrightarrow> truthy trm = Some tm \<Longrightarrow> like_too_complex (''%'' @ tm @ ''%'') \<Longrightarrow>
     \<exists>e. searchNotes (Opens (Ready d)) trm tag = Inl e"
  unfolding searchNotes_def by simp_all

lemma search_note_selected:
  "id' (search_note m (selected b fl n)) = ZUNIQUEIDENTIFIER n"
  "content (search_note m r) = None"
  "isTrashed (search_note m (selected b True n)) = Some (ZTRASHED n \<noteq> 0)"
  "tags (search_note m r) = Some (case m (r_id r) of None \<Rightarrow> [] | Some ns \<Rightarrow> ns)"
  "createdAt (search_note m (selected b fl n)) = datetime_unixepoch (ZCREATIONDATE n + 978307200)"
  "modifiedAt (search_note m (selected b fl n)) = datetime_unixepoch (ZMODIFICATIONDATE n + 978307200)"
  by (simp_all add: search_note_def selected_def Boolean_def)

text \<open>
  C7. A search with neither a term nor a tag filter, on a store that opens and answers, is
  no error: it returns at most 50 notes, which are, position by position, note rows of the
  store that are neither trashed nor archived, in descending order of their modification
  time; the handler returns them without the error flag.
\<close>

theorem browse_recent:
  "\<exists>notes ns.
     searchNotes (Opens (Ready d)) None None = Inr notes \<and>
     isError (fst (bear_search (Opens (Ready d)) None None w)) = False \<and>
     length notes \<le> 50 \<and>
     map id' notes = map ZUNIQUEIDENTIFIER ns \<and>
     set ns \<subseteq> {n \<in> set (ZSFNOTE d). qualifies n} \<and>
     list_all (\<lambda>x. isTrashed x = Some False) notes \<and>
     sorted_wrt (\<ge>) (map ZMODIFICATIONDATE ns)"
proof -
  obtain ns where ns: "recent_notes d = map (selected False True) ns"
    "set ns \<subseteq> {n \<in> set (ZSFNOTE d). qualifies n}"
    "sorted_wrt (\<ge>) (map ZMODIFICATIONDATE ns)" "length ns \<le> 50"
    using recent_notes_rows by blast
  obtain m where m: "searchNotes (Opens (Ready d)) None None
      = Inr (map (search_note m) (recent_notes d))"
    using searchNotes_recent [where tag = None and trm = None and d = d]
    by auto
  let ?notes = "map (search_note m) (recent_notes d)"
  have 1: "length ?notes \<le> 50" using ns(1,4) by simp
  have 2: "map id' ?notes = map ZUNIQUEIDENTIFIER ns"
    unfolding ns(1) by (simp add: search_note_selected comp_def)
  have 3: "list_all (\<lambda>x. isTrashed x = Some False) ?notes"
    unfolding ns(1) using ns(2)
    by (auto simp: list_all_iff search_note_selected qualifies_def)
  have 4: "isError (fst (bear_search (Opens (Ready d)) None None w)) = False"
    by (simp add: bear_search_def m)
  from m 1 2 3 4 ns(2,3) show ?thesis by blast
qed

text \<open>On the example store the two notes that are not trashed come back, the later one first.\<close>

theorem browse_recent_witness:
  "map id' (projr (searchNotes example_store None None)) = [''B2'', ''A1''] \<and>
   isError (fst (bear_search example_store None None world0)) = False"
proof -
  have e: "map id' (projr (searchNotes example_store None None)) = [''B2'', ''A1'']"
    by code_simp
  from browse_recent [of example_db world0] e show ?thesis
    by (auto simp: example_store_def)
qed

text \<open>
  C2, as the code has it. For a non-empty tag filter without the wildcards of \<^verbatim>\<open>LIKE\<close>,
  without a character of code 0 and of at most 49998 bytes (so that the pattern has at most
  50000), the search by tag returns at most 100 notes; they are, position by position, note
  rows of the store that are neither trashed nor archived and bear a tag whose name contains
  the filter up to the case of the letters A to Z, in descending order of their modification
  time; and the tag list of every returned note holds such a name.
\<close>

theorem tag_search:
  assumes "T \<noteq> []" and "CHR ''%'' \<notin> set T" and "CHR ''_'' \<notin> set T"
    and "CHR 0x00 \<notin> set T" and "utf8_length T + 2 \<le> 50000"
  shows "\<exists>notes ns.
     searchNotes (Opens (Ready d)) None (Some T) = Inr notes \<and>
     length notes \<le> 100 \<and>
     map id' notes = map ZUNIQUEIDENTIFIER ns \<and>
     set ns \<subseteq> {n \<in> set (ZSFNOTE d). qualifies n \<and> (\<exists>nm. bears d n nm \<and> contains_ci T nm)} \<and>
     list_all (\<lambda>x. \<exists>tgs. tags x = Some tgs \<and> list_ex (contains_ci T) tgs) notes \<and>
     list_all (\<lambda>x. isTrashed x = Some False) notes \<and>
     sorted_wrt (\<ge>) (map ZMODIFICATIONDATE ns)"
proof -
  let ?pat = "''%'' @ T @ ''%''"
  let ?rows = "search_by_tag ?pat d"
  obtain ns where ns: "?rows = map (selected True True) ns"
    "set ns \<subseteq> {n \<in> set (ZSFNOTE d). qualifies n \<and> (\<exists>nm. bears d n nm \<and> like ?pat nm)}"
    "sorted_wrt (\<ge>) (map ZMODIFICATIONDATE ns)" "length ns \<le> 100"
    using search_by_tag_rows by blast
  obtain m where b: "getNoteTagsBatch (Opens (Ready d)) (map r_id ?rows) = Inr m"
    and m: "searchNotes (Opens (Ready d)) None (Some T) = Inr (map (search_note m) ?rows)"
    using searchNotes_by_tag [where rows = ?rows and tag = "Some T" and tg = T and trm = None
        and d = d] assms(1,5)
    by (auto simp: like_too_complex_def utf8_length_def)
  let ?notes = "map (search_note m) ?rows"
  have matched: "qualifies n \<and> (\<exists>nm. bears d n nm \<and> contains_ci T nm) \<and> n \<in> set (ZSFNOTE d)"
    if "n \<in> set ns" for n
    using that ns(2) like_contains [OF assms(2,3,4)] by blast
  have 1: "length ?notes \<le> 100" using ns(1,4) by simp
  have 2: "map id' ?notes = map ZUNIQUEIDENTIFIER ns"
    unfolding ns(1) by (simp add: search_note_selected comp_def)
  have 3: "set ns \<subseteq> {n \<in> set (ZSFNOTE d). qualifies n \<and> (\<exists>nm. bears d n nm \<and> contains_ci T nm)}"
    using matched by blast
  have 4: "list_all (\<lambda>x. isTrashed x = Some False) ?notes"
    unfolding ns(1) using matched
    by (auto simp: list_all_iff search_note_selected qualifies_def)
  have tagged: "\<exists>tgs. tags (search_note m (selected True True n)) = Some tgs \<and>
                  list_ex (contains_ci T) tgs" if n: "n \<in> set ns" for n
  proof -
    let ?k = "ZUNIQUEIDENTIFIER n"
    let ?tgs = "case m ?k of None \<Rightarrow> [] | Some xs \<Rightarrow> xs"
    from matched [OF n] obtain nm where nm: "bears d n nm" "contains_ci T nm"
      and mem: "n \<in> set (ZSFNOTE d)" by blast
    have "?k \<in> set (map r_id ?rows)"
      unfolding ns(1) using n by (auto simp: selected_def)
    from batch_tags [OF b this] mem nm(1) have "nm \<in> set ?tgs" by blast
    with nm(2) have "list_ex (contains_ci T) ?tgs"
      unfolding list_ex_iff by blast
    moreover have "tags (search_note m (selected True True n)) = Some ?tgs"
      by (simp add: search_note_def selected_def)
    ultimately show ?thesis by blast
  qed
  have 5: "list_all (\<lambda>x. \<exists>tgs. tags x = Some tgs \<and> list_ex (contains_ci T) tgs) ?notes"
    unfolding ns(1) list_all_iff using tagged by auto
  from m 1 2 3 4 5 ns(3) show ?thesis by blast
qed

text \<open>The filter \<^verbatim>\<open>wor\<close> on the example store finds the note tagged \<^verbatim>\<open>Work\<close>.\<close>

theorem tag_search_witness:
  "''wor'' \<noteq> [] \<and> CHR ''%'' \<notin> set ''wor'' \<and> CHR ''_'' \<notin> set ''wor'' \<and>
   CHR 0x00 \<notin> set ''wor'' \<and> utf8_length ''wor'' + 2 \<le> 50000 \<and>
   searchNotes example_store None (Some ''wor'') =
     Inr [\<lparr>id' = ''A1'', title = ''x'', content = None, tags = Some [''Work''],
           createdAt = Some ''2001-01-01 00:00:00'', modifiedAt = Some ''2001-01-01 00:01:40'',
           isTrashed = Some False\<rparr>] \<and>
   contains_ci ''wor'' ''Work''"
proof -
  have h: "''wor'' \<noteq> []" "CHR ''%'' \<notin> set ''wor''" "CHR ''_'' \<notin> set ''wor''"
    "CHR 0x00 \<notin> set ''wor''" "utf8_length ''wor'' + 2 \<le> 50000"
    by (simp_all add: utf8_length_def)
  have e: "searchNotes example_store None (Some ''wor'') =
     Inr [\<lparr>id' = ''A1'', title = ''x'', content = None, tags = Some [''Work''],
           createdAt = Some ''2001-01-01 00:00:00'', modifiedAt = Some ''2001-01-01 00:01:40'',
           isTrashed = Some False\<rparr>]"
    by code_simp
  have c: "contains_ci ''wor'' ''Work''"
    by code_simp
  from tag_search [OF h, of example_db] h e c show ?thesis
    by blast
qed

text \<open>
  C2, as the specification has it, fails for a filter with a wildcard: the filter \<^verbatim>\<open>%\<close>
  returns the note tagged \<^verbatim>\<open>Work\<close>, and no tag of that note contains a percent sign.
\<close>

theorem tag_search_wildcard:
  "searchNotes example_store None (Some ''%'') =
     Inr [\<lparr>id' = ''A1'', title = ''x'', content = None, tags = Some [''Work''],
           createdAt = Some ''2001-01-01 00:00:00'', modifiedAt = Some ''2001-01-01 00:01:40'',
           isTrashed = Some False\<rparr>] \<and>
   \<not> contains_ci ''%'' ''Work''"
proof -
  have e: "searchNotes example_store None (Some ''%'') =
     Inr [\<lparr>id' = ''A1'', title = ''x'', content = None, tags = Some [''Work''],
           createdAt = Some ''2001-01-01 00:00:00'', modifiedAt = Some ''2001-01-01 00:01:40'',
           isTrashed = Some False\<rparr>]"
    by code_simp
  have c: "\<not> contains_ci ''%'' ''Work''"
    by code_simp
  from e c show ?thesis by blast
qed

text \<open>
  C10, as the code has it. With a non-empty tag filter the term is ignored: the search
  returns what the search with the tag filter alone returns.
\<close>

theorem tag_takes_precedence:
  assumes "tg \<noteq> []"
  shows "searchNotes st trm (Some tg) = searchNotes st None (Some tg)"
  using assms by (cases "getDatabase st") (simp_all add: searchNotes_def)

text \<open>The term \<^verbatim>\<open>y\<close> with the tag filter \<^verbatim>\<open>Work\<close> finds the note tagged \<^verbatim>\<open>Work\<close>, whose title is x.\<close>

theorem tag_takes_precedence_witness:
  "''Work'' \<noteq> [] \<and>
   searchNotes example_store (Some ''y'') (Some ''Work'') =
     Inr [\<lparr>id' = ''A1'', title = ''x'', content = None, tags = Some [''Work''],
           createdAt = Some ''2001-01-01 00:00:00'', modifiedAt = Some ''2001-01-01 00:01:40'',
           isTrashed = Some False\<rparr>]"
proof -
  have h: "''Work'' \<noteq> []" by simp
  have e: "searchNotes example_store None (Some ''Work'') =
     Inr [\<lparr>id' = ''A1'', title = ''x'', content = None, tags = Some [''Work''],
           createdAt = Some ''2001-01-01 00:00:00'', modifiedAt = Some ''2001-01-01 00:01:40'',
           isTrashed = Some False\<rparr>]"
    by code_simp
  from tag_takes_precedence [OF h, of example_store "Some ''y''"] e h show ?thesis
    by simp
qed

text \<open>
  C10, as the specification has it, fails for the empty tag filter, which the code takes as
  no filter: with the term x the search is by text, and without a term it lists the recent
  notes.
\<close>

theorem empty_tag_is_no_filter:
  "searchNotes example_store (Some ''x'') (Some '''') \<noteq>
   searchNotes example_store None (Some '''')"
  by code_simp

subsection \<open>Single notes and lists\<close>

lemma select_none:
  "\<forall>n\<in>set xs. \<not> P n \<Longrightarrow> concat (map (\<lambda>n. if P n then [f n] else []) xs) = []"
  by (induction xs) auto

lemma note_by_id_None:
  assumes "noteId \<notin> ZUNIQUEIDENTIFIER ` set (ZSFNOTE d)"
  shows "note_by_id noteId d = None"
proof -
  have "\<forall>n\<in>set (ZSFNOTE d). \<not> ZUNIQUEIDENTIFIER n = noteId"
    using assms by auto
  from select_none [OF this, of "selected True True"] show ?thesis
    unfolding note_by_id_def by (simp only: list.case)
qed

text \<open>
  C4. For a note identifier that no row of the store has, \<^verbatim>\<open>getNoteContent\<close> returns \<^verbatim>\<open>null\<close>
  and throws nothing, and the handler of get-note returns the explicit result ``Note not
  found'' (a result with the error flag set, not a thrown error).
\<close>

theorem unknown_note_not_found:
  assumes "noteId \<notin> ZUNIQUEIDENTIFIER ` set (ZSFNOTE d)"
  shows "getNoteContent (Opens (Ready d)) noteId = Inr None \<and>
         bear_get_note (Opens (Ready d)) noteId w =
           (\<lparr>result_text = Text (''Note not found: '' @ noteId), isError = True\<rparr>, w)"
  by (simp add: getNoteContent_def bear_get_note_def note_by_id_None [OF assms])

text \<open>No note of the example store has the identifier \<^verbatim>\<open>zz\<close>.\<close>

theorem unknown_note_not_found_witness:
  "''zz'' \<notin> ZUNIQUEIDENTIFIER ` set (ZSFNOTE example_db) \<and>
   getNoteContent example_store ''zz'' = Inr None \<and>
   bear_get_note example_store ''zz'' world0 =
     (\<lparr>result_text = Text ''Note not found: zz'', isError = True\<rparr>, world0)"
proof -
  have h: "''zz'' \<notin> ZUNIQUEIDENTIFIER ` set (ZSFNOTE example_db)"
    by (simp add: example_db_def)
  from unknown_note_not_found [OF h, of world0] h show ?thesis
    by (simp add: example_store_def)
qed

lemma rows_selected:
  assumes "set qs \<subseteq> (\<lambda>n. (key n, f n)) ` S"
  shows "set (map snd (take k (order_by_desc qs))) \<subseteq> f ` S"
proof -
  have "set (take k (order_by_desc qs)) \<subseteq> set qs"
    using set_take_subset [of k "order_by_desc qs"] by (simp add: set_order_by_desc)
  with assms show ?thesis by auto
qed

lemma search_by_tag_selected:
  "set (search_by_tag pat d) \<subseteq> selected True True ` set (ZSFNOTE d)"
  unfolding search_by_tag_def
  by (rule rows_selected [where key = ZMODIFICATIONDATE], rule subset_trans [OF set_sql_distinct]) auto

lemma search_by_text_selected:
  "set (search_by_text p1 p2 d) \<subseteq> selected True True ` set (ZSFNOTE d)"
  unfolding search_by_text_def
  by (rule rows_selected [where key = ZMODIFICATIONDATE]) auto

lemma recent_notes_selected:
  "set (recent_notes d) \<subseteq> selected False True ` set (ZSFNOTE d)"
  unfolding recent_notes_def
  by (rule rows_selected [where key = ZMODIFICATIONDATE]) auto

lemma notes_by_tag_selected:
  "set (notes_by_tag tg d) \<subseteq> selected False False ` set (ZSFNOTE d)"
  unfolding notes_by_tag_def
  by (rule rows_selected [where key = ZMODIFICATIONDATE], rule subset_trans [OF set_sql_distinct]) auto

lemma archived_notes_selected:
  "set (archived_notes d) \<subseteq> selected False False ` set (ZSFNOTE d)"
  unfolding archived_notes_def
  by (rule rows_selected [where key = ZMODIFICATIONDATE]) auto

lemma searchNotes_rows:
  assumes "searchNotes (Opens (Ready d)) trm tag = Inr notes"
  shows "\<exists>m rows b. notes = map (search_note m) rows \<and>
           set rows \<subseteq> selected b True ` set (ZSFNOTE d)"
proof (cases "truthy tag")
  case (Some tg)
  let ?pat = "''%'' @ tg @ ''%''"
  from assms searchNotes_too_complex(1) [OF Some, of d trm]
  have "\<not> like_too_complex ?pat" by auto
  from searchNotes_by_tag [OF Some this refl, of d trm] assms
  obtain m where "notes = map (search_note m) (search_by_tag ?pat d)" by auto
  with search_by_tag_selected [of ?pat d] show ?thesis by blast
next
  case None
  show ?thesis
  proof (cases "truthy trm")
    case (Some tm)
    let ?pat = "''%'' @ tm @ ''%''"
    from assms searchNotes_too_complex(2) [OF None Some, of d]
    have "\<not> like_too_complex ?pat" by auto
    from searchNotes_by_text [OF None Some this refl, of d] assms
    obtain m where "notes = map (search_note m) (search_by_text ?pat ?pat d)" by auto
    with search_by_text_selected [of ?pat ?pat d] show ?thesis by blast
  next
    case trm_None: None
    from searchNotes_recent [OF None trm_None, of d] assms
    obtain m where "notes = map (search_note m) (recent_notes d)" by auto
    with recent_notes_selected [of d] show ?thesis by blast
  qed
qed

lemma getNoteTagsBatch_total:
  "\<exists>m. getNoteTagsBatch (Opens (Ready d)) ids = Inr m"
  by (simp add: getNoteTagsBatch_Ready)

lemma listNotesByTag_Ready:
  "\<exists>m. listNotesByTag (Opens (Ready d)) tg = Inr (map (with_tags m) (notes_by_tag tg d))"
proof -
  obtain m where "getNoteTagsBatch (Opens (Ready d)) (map r_id (notes_by_tag tg d)) = Inr m"
    using getNoteTagsBatch_total by blast
  then have "listNotesByTag (Opens (Ready d)) tg = Inr (map (with_tags m) (notes_by_tag tg d))"
    by (simp add: listNotesByTag_def)
  then show ?thesis by blast
qed

lemma listArchivedNotes_Ready:
  "\<exists>m. listArchivedNotes (Opens (Ready d)) = Inr (map (with_tags m) (archived_notes d))"
proof -
  obtain m where "getNoteTagsBatch (Opens (Ready d)) (map r_id (archived_notes d)) = Inr m"
    using getNoteTagsBatch_total by blast
  then have "listArchivedNotes (Opens (Ready d)) = Inr (map (with_tags m) (archived_notes d))"
    by (simp add: listArchivedNotes_def)
  then show ?thesis by blast
qed

lemma converted_search_note:
  "n \<in> set (ZSFNOTE d) \<Longrightarrow> converted d (search_note m (selected b fl n))"
  unfolding converted_def list_ex_iff by (auto simp: search_note_def selected_def)

lemma converted_with_tags:
  "n \<in> set (ZSFNOTE d) \<Longrightarrow> converted d (with_tags m (selected b fl n))"
  unfolding converted_def list_ex_iff by (auto simp: with_tags_def selected_def)

lemma getNoteContent_Some:
  assumes "getNoteContent (Opens (Ready d)) noteId = Inr (Some x)"
  shows "\<exists>n\<in>set (ZSFNOTE d). \<exists>ts. ZUNIQUEIDENTIFIER n = noteId \<and>
           x = \<lparr>id' = noteId, title = ZTITLE n, content = Some (ZTEXT n), tags = Some ts,
                createdAt = datetime_unixepoch (ZCREATIONDATE n + 978307200),
                modifiedAt = datetime_unixepoch (ZMODIFICATIONDATE n + 978307200),
                isTrashed = Some (ZTRASHED n \<noteq> 0)\<rparr>"
proof -
  let ?rs = "[selected True True n. n \<leftarrow> ZSFNOTE d, ZUNIQUEIDENTIFIER n = noteId]"
  from assms obtain r where r: "note_by_id noteId d = Some r"
    by (auto simp: getNoteContent_def split: option.splits sum.splits)
  then obtain rs where "?rs = r # rs"
    by (auto simp: note_by_id_def split: list.splits)
  then have "r \<in> set ?rs"
    by (metis list.set_intros(1))
  then obtain n where n: "n \<in> set (ZSFNOTE d)" "ZUNIQUEIDENTIFIER n = noteId"
    "r = selected True True n" by auto
  from assms r obtain ts where "x = \<lparr>id' = r_id r, title = r_title r, content = r_content r,
                          tags = Some ts,
                          createdAt = r_createdAt r, modifiedAt = r_modifiedAt r,
                          isTrashed = Some (Boolean (r_isTrashed r))\<rparr>"
    by (auto simp: getNoteContent_def split: option.splits sum.splits)
  with n show ?thesis
    by (auto simp: selected_def Boolean_def)
qed

text \<open>
  C8. Every note that a read operation returns carries, as its creation and modification
  time, the reading as Unix time of the offsets stored in a note row of its identifier, each
  plus 978307200 seconds.
\<close>

theorem timestamps_converted:
  "(getNoteContent (Opens (Ready d)) noteId = Inr (Some x) \<longrightarrow> converted d x) \<and>
   (searchNotes (Opens (Ready d)) trm tag = Inr found \<longrightarrow> list_all (converted d) found) \<and>
   (listNotesByTag (Opens (Ready d)) tg = Inr tagged \<longrightarrow> list_all (converted d) tagged) \<and>
   (listArchivedNotes (Opens (Ready d)) = Inr archived \<longrightarrow> list_all (converted d) archived)"
proof (intro conjI impI)
  assume "getNoteContent (Opens (Ready d)) noteId = Inr (Some x)"
  from getNoteContent_Some [OF this]
  obtain n where "n \<in> set (ZSFNOTE d)" "ZUNIQUEIDENTIFIER n = id' x"
    "createdAt x = datetime_unixepoch (ZCREATIONDATE n + 978307200)"
    "modifiedAt x = datetime_unixepoch (ZMODIFICATIONDATE n + 978307200)"
    by auto
  then show "converted d x"
    unfolding converted_def list_ex_iff by blast
next
  assume "searchNotes (Opens (Ready d)) trm tag = Inr found"
  from searchNotes_rows [OF this]
  obtain m rows b where "found = map (search_note m) rows"
    "set rows \<subseteq> selected b True ` set (ZSFNOTE d)" by blast
  then show "list_all (converted d) found"
    unfolding list_all_iff using converted_search_note by auto
next
  assume a: "listNotesByTag (Opens (Ready d)) tg = Inr tagged"
  obtain m where "listNotesByTag (Opens (Ready d)) tg = Inr (map (with_tags m) (notes_by_tag tg d))"
    using listNotesByTag_Ready by blast
  with a have "tagged = map (with_tags m) (notes_by_tag tg d)" by simp
  then show "list_all (converted d) tagged"
    unfolding list_all_iff using converted_with_tags notes_by_tag_selected by fastforce
next
  assume a: "listArchivedNotes (Opens (Ready d)) = Inr archived"
  obtain m where "listArchivedNotes (Opens (Ready d)) = Inr (map (with_tags m) (archived_notes d))"
    using listArchivedNotes_Ready by blast
  with a have "archived = map (with_tags m) (archived_notes d)" by simp
  then show "list_all (converted d) archived"
    unfolding list_all_iff using converted_with_tags archived_notes_selected by fastforce
qed

text \<open>
  On the example store, whose notes were all created at offset 0: the conversion gives the
  first second of the year 2001, and the offsets 100, 200 and 400 give the times 100, 200 and
  400 seconds later.
\<close>

theorem timestamps_converted_witness:
  "map_option createdAt (projr (getNoteContent example_store ''A1'')) =
     Some (Some ''2001-01-01 00:00:00'') \<and>
   map_option modifiedAt (projr (getNoteContent example_store ''A1'')) =
     Some (Some ''2001-01-01 00:01:40'') \<and>
   map modifiedAt (projr (searchNotes example_store None None)) =
     [Some ''2001-01-01 00:03:20'', Some ''2001-01-01 00:01:40''] \<and>
   map modifiedAt (projr (listNotesByTag example_store ''WORK'')) = [Some ''2001-01-01 00:01:40''] \<and>
   map modifiedAt (projr (listArchivedNotes example_store)) = [Some ''2001-01-01 00:06:40''] \<and>
   (\<exists>x. getNoteContent example_store ''A1'' = Inr (Some x) \<and> converted example_db x) \<and>
   list_all (converted example_db) (projr (searchNotes example_store None None)) \<and>
   list_all (converted example_db) (projr (listNotesByTag example_store ''WORK'')) \<and>
   list_all (converted example_db) (projr (listArchivedNotes example_store))"
proof -
  have e: "\<not> isl (searchNotes example_store None None)"
    "\<not> isl (listNotesByTag example_store ''WORK'')"
    "\<not> isl (listArchivedNotes example_store)"
    by code_simp+
  have v: "map_option createdAt (projr (getNoteContent example_store ''A1'')) =
     Some (Some ''2001-01-01 00:00:00'')"
   "map_option modifiedAt (projr (getNoteContent example_store ''A1'')) =
     Some (Some ''2001-01-01 00:01:40'')"
   "map modifiedAt (projr (searchNotes example_store None None)) =
     [Some ''2001-01-01 00:03:20'', Some ''2001-01-01 00:01:40'']"
   "map modifiedAt (projr (listNotesByTag example_store ''WORK'')) = [Some ''2001-01-01 00:01:40'']"
   "map modifiedAt (projr (listArchivedNotes example_store)) = [Some ''2001-01-01 00:06:40'']"
    by code_simp+
  have g: "\<not> isl (getNoteContent example_store ''A1'')"
    "projr (getNoteContent example_store ''A1'') \<noteq> None"
    by code_simp+
  then obtain x where x: "getNoteContent example_store ''A1'' = Inr (Some x)"
    by (metis sum.collapse(2) not_Some_eq)
  from timestamps_converted [of example_db "''A1''" x None None
      "projr (searchNotes example_store None None)" "''WORK''"
      "projr (listNotesByTag example_store ''WORK'')"
      "projr (listArchivedNotes example_store)"] e x
  have "converted example_db x"
    "list_all (converted example_db) (projr (searchNotes example_store None None))"
    "list_all (converted example_db) (projr (listNotesByTag example_store ''WORK''))"
    "list_all (converted example_db) (projr (listArchivedNotes example_store))"
    unfolding example_store_def by (metis sum.collapse(2))+
  with v x show ?thesis by blast
qed

lemma Inr_Ready:
  "searchNotes st trm tag = Inr found \<Longrightarrow> \<exists>d. st = Opens (Ready d)"
  "listNotesByTag st tg = Inr tagged \<Longrightarrow> \<exists>d. st = Opens (Ready d)"
  "listArchivedNotes st = Inr archived \<Longrightarrow> \<exists>d. st = Opens (Ready d)"
  "getNoteContent st noteId = Inr (Some x) \<Longrightarrow> \<exists>d. st = Opens (Ready d)"
proof -
  show "searchNotes st trm tag = Inr found \<Longrightarrow> \<exists>d. st = Opens (Ready d)"
  proof (cases st)
    case (Opens c)
    assume "searchNotes st trm tag = Inr found"
    with Opens show ?thesis
      by (cases c) (auto simp: searchNotes_def split: option.splits)
  qed (simp_all add: searchNotes_def)
  show "listNotesByTag st tg = Inr tagged \<Longrightarrow> \<exists>d. st = Opens (Ready d)"
  proof (cases st)
    case (Opens c)
    assume "listNotesByTag st tg = Inr tagged"
    with Opens show ?thesis by (cases c) (simp_all add: listNotesByTag_def)
  qed (simp_all add: listNotesByTag_def)
  show "listArchivedNotes st = Inr archived \<Longrightarrow> \<exists>d. st = Opens (Ready d)"
  proof (cases st)
    case (Opens c)
    assume "listArchivedNotes st = Inr archived"
    with Opens show ?thesis by (cases c) (simp_all add: listArchivedNotes_def)
  qed (simp_all add: listArchivedNotes_def)
  show "getNoteContent st noteId = Inr (Some x) \<Longrightarrow> \<exists>d. st = Opens (Ready d)"
  proof (cases st)
    case (Opens c)
    assume "getNoteContent st noteId = Inr (Some x)"
    with Opens show ?thesis by (cases c) (simp_all add: getNoteContent_def)
  qed (simp_all add: getNoteContent_def)
qed

lemma content_with_tags: "content (with_tags m (selected False fl n)) = None"
  by (simp add: with_tags_def selected_def)

text \<open>
  C9. No note that search, list-by-tag or list-archived returns has a body content; a note
  fetched by its identifier has one.
\<close>

theorem lists_omit_content:
  "(searchNotes st trm tag = Inr found \<longrightarrow> list_all (\<lambda>x. content x = None) found) \<and>
   (listNotesByTag st tg = Inr tagged \<longrightarrow> list_all (\<lambda>x. content x = None) tagged) \<and>
   (listArchivedNotes st = Inr archived \<longrightarrow> list_all (\<lambda>x. content x = None) archived) \<and>
   (getNoteContent st noteId = Inr (Some x) \<longrightarrow> content x \<noteq> None)"
proof (intro conjI impI)
  assume a: "searchNotes st trm tag = Inr found"
  from Inr_Ready(1) [OF a] obtain d where "st = Opens (Ready d)" by blast
  with a searchNotes_rows [of d trm tag found]
  obtain m rows where "found = map (search_note m) rows" by blast
  then show "list_all (\<lambda>x. content x = None) found"
    by (simp add: list_all_iff search_note_selected)
next
  assume a: "listNotesByTag st tg = Inr tagged"
  from Inr_Ready(2) [OF a] obtain d where d: "st = Opens (Ready d)" by blast
  obtain m where "listNotesByTag (Opens (Ready d)) tg = Inr (map (with_tags m) (notes_by_tag tg d))"
    using listNotesByTag_Ready by blast
  with a d have "tagged = map (with_tags m) (notes_by_tag tg d)" by simp
  then show "list_all (\<lambda>x. content x = None) tagged"
    unfolding list_all_iff using content_with_tags notes_by_tag_selected by fastforce
next
  assume a: "listArchivedNotes st = Inr archived"
  from Inr_Ready(3) [OF a] obtain d where d: "st = Opens (Ready d)" by blast
  obtain m where "listArchivedNotes (Opens (Ready d)) = Inr (map (with_tags m) (archived_notes d))"
    using listArchivedNotes_Ready by blast
  with a d have "archived = map (with_tags m) (archived_notes d)" by simp
  then show "list_all (\<lambda>x. content x = None) archived"
    unfolding list_all_iff using content_with_tags archived_notes_selected by fastforce
next
  assume a: "getNoteContent st noteId = Inr (Some x)"
  from Inr_Ready(4) [OF a] obtain d where d: "st = Opens (Ready d)" by blast
  from getNoteContent_Some [of d noteId x] a d show "content x \<noteq> None" by auto
qed

text \<open>
  On the example store each of the three lists returns one note, without content, and the
  note A1 fetched by its identifier has its body.
\<close>

theorem lists_omit_content_witness:
  "map content (projr (searchNotes example_store (Some ''x'') None)) = [None] \<and>
   map content (projr (listNotesByTag example_store ''WORK'')) = [None] \<and>
   map content (projr (listArchivedNotes example_store)) = [None] \<and>
   map_option content (projr (getNoteContent example_store ''A1'')) = Some (Some ''body'')"
proof -
  have e: "\<not> isl (searchNotes example_store (Some ''x'') None)"
    "\<not> isl (listNotesByTag example_store ''WORK'')"
    "\<not> isl (listArchivedNotes example_store)"
    "\<not> isl (getNoteContent example_store ''A1'')"
    "projr (getNoteContent example_store ''A1'') \<noteq> None"
    by code_simp+
  have l: "length (projr (searchNotes example_store (Some ''x'') None)) = 1"
    "length (projr (listNotesByTag example_store ''WORK'')) = 1"
    "length (projr (listArchivedNotes example_store)) = 1"
    by code_simp+
  have c: "map_option content (projr (getNoteContent example_store ''A1'')) = Some (Some ''body'')"
    by code_simp
  from e(5) obtain x where x: "projr (getNoteContent example_store ''A1'') = Some x" by blast
  from lists_omit_content [of example_store "Some ''x''" None
      "projr (searchNotes example_store (Some ''x'') None)" "''WORK''"
      "projr (listNotesByTag example_store ''WORK'')"
      "projr (listArchivedNotes example_store)" "''A1''" x] e(1-4) x
  have "list_all (\<lambda>x. content x = None) (projr (searchNotes example_store (Some ''x'') None))"
    "list_all (\<lambda>x. content x = None) (projr (listNotesByTag example_store ''WORK''))"
    "list_all (\<lambda>x. content x = None) (projr (listArchivedNotes example_store))"
    by (metis sum.collapse(2))+
  with l c show ?thesis
    by (auto simp: list_all_iff length_Suc_conv)
qed

subsection \<open>Tags\<close>

lemma set_left_join:
  "set (left_join xs ys on) =
     {(x, Some y) | x y. x \<in> set xs \<and> y \<in> set ys \<and> on x y} \<union>
     {(x, None) | x. x \<in> set xs \<and> (\<forall>y\<in>set ys. \<not> on x y)}"
proof -
  have one: "set (case filter (on x) ys of [] \<Rightarrow> [(x, None)] | m # ms \<Rightarrow> map (\<lambda>y. (x, Some y)) (m # ms)) =
        {(x, Some y) | y. y \<in> set ys \<and> on x y} \<union>
        {(x, None) | u. u = x \<and> (\<forall>y\<in>set ys. \<not> on x y)}" for x
  proof (cases "filter (on x) ys")
    case Nil
    then have "\<forall>y\<in>set ys. \<not> on x y" by (simp add: filter_empty_conv)
    with Nil show ?thesis by auto
  next
    case (Cons m ms)
    then have "set (m # ms) = {y \<in> set ys. on x y}" by (metis set_filter)
    moreover from Cons have "\<exists>y\<in>set ys. on x y"
      by (metis filter_empty_conv list.distinct(1))
    ultimately show ?thesis unfolding Cons by auto
  qed
  show ?thesis
    unfolding left_join_def set_concat set_map by (auto simp: one)
qed

lemma tag_join_Some:
  "((t, nt), Some n) \<in> set (tag_join d) \<longleftrightarrow>
     t \<in> set (ZSFNOTETAG d) \<and> n \<in> set (ZSFNOTE d) \<and>
     (\<exists>l\<in>set (Z_5TAGS d). nt = Some l \<and> TAG_PK t = Z_13TAGS l \<and> Z_5NOTES l = Z_PK n)"
  unfolding tag_join_def set_left_join by auto

lemma count_distinct_card: "count_distinct vs = card {v. Some v \<in> set vs}"
proof -
  have "set [v. Some v \<leftarrow> vs] = {v. Some v \<in> set vs}"
    by (induction vs) (auto split: option.splits)
  then show ?thesis
    by (simp add: count_distinct_def length_remdups_card_conv)
qed

lemma counted_set:
  "{v. Some v \<in> set [counted_pk n. ((t, nt), n) \<leftarrow> tag_join d, TAG_TITLE t = k]} =
     Z_PK ` qualifying d k"
proof -
  have "Some v \<in> set [counted_pk n. ((t, nt), n) \<leftarrow> tag_join d, TAG_TITLE t = k] \<longleftrightarrow>
        (\<exists>t nt n. ((t, nt), Some n) \<in> set (tag_join d) \<and> TAG_TITLE t = k \<and>
                   qualifies n \<and> Z_PK n = v)" for v
    by (auto simp: counted_pk_def qualifies_def split: option.splits if_splits)
  also have "(\<exists>t nt n. ((t, nt), Some n) \<in> set (tag_join d) \<and> TAG_TITLE t = k \<and>
                   qualifies n \<and> Z_PK n = v) \<longleftrightarrow> v \<in> Z_PK ` qualifying d k" for v
    unfolding tag_join_Some qualifying_def bears_iff image_iff by blast
  finally show ?thesis by blast
qed

lemma noteCount_all_tags:
  "count_distinct [counted_pk n. ((t, nt), n) \<leftarrow> tag_join d, TAG_TITLE t = k] =
     card (Z_PK ` qualifying d k)"
  by (simp only: count_distinct_card counted_set)

lemma finite_qualifying: "finite (qualifying d k)"
  by (simp add: qualifying_def)

lemma qualifying_group:
  assumes "qualifying d k \<noteq> {}"
  shows "k \<in> set (map (\<lambda>((t, nt), n). TAG_TITLE t) (tag_join d))"
proof -
  from assms obtain n where "n \<in> set (ZSFNOTE d)" "bears d n k"
    by (auto simp: qualifying_def)
  then obtain l t where "l \<in> set (Z_5TAGS d)" "t \<in> set (ZSFNOTETAG d)"
    "Z_5NOTES l = Z_PK n" "TAG_PK t = Z_13TAGS l" "TAG_TITLE t = k"
    unfolding bears_iff by blast
  with \<open>n \<in> set (ZSFNOTE d)\<close> have "((t, Some l), Some n) \<in> set (tag_join d)"
    unfolding tag_join_Some by blast
  with \<open>TAG_TITLE t = k\<close> show ?thesis by force
qed

text \<open>
  C6. On a store that opens and answers, list-tags returns exactly the tag names that some
  note bears which is neither trashed nor archived, each once, in the order of the names, and
  each with the number of such notes, counted by their row ids; no returned count is 0.
\<close>

theorem tags_with_counts:
  "\<exists>ts. getAllTags (Opens (Ready d)) = Inr ts \<and>
        set (map name ts) = {k. qualifying d k \<noteq> {}} \<and>
        list_all (\<lambda>g. noteCount g = card (Z_PK ` qualifying d (name g)) \<and> 0 < noteCount g) ts \<and>
        sorted (map name ts) \<and> distinct (map name ts)"
proof -
  let ?groups = "sort (remdups (map (\<lambda>((t, nt), n). TAG_TITLE t) (tag_join d)))"
  let ?mk = "\<lambda>k. \<lparr>name = k, noteCount = card (Z_PK ` qualifying d k)\<rparr>"
  have all: "all_tags d = filter (\<lambda>g. noteCount g > 0) (map ?mk ?groups)"
    unfolding all_tags_def Let_def noteCount_all_tags ..
  have names: "map name (all_tags d) = filter (\<lambda>k. qualifying d k \<noteq> {}) ?groups"
    unfolding all by (simp add: filter_map comp_def card_gt_0_iff finite_qualifying)
  have 1: "getAllTags (Opens (Ready d)) = Inr (all_tags d)"
    by (simp add: getAllTags_def)
  have 2: "set (map name (all_tags d)) = {k. qualifying d k \<noteq> {}}"
    unfolding names using qualifying_group [of d] by auto
  have 3: "list_all (\<lambda>g. noteCount g = card (Z_PK ` qualifying d (name g)) \<and> 0 < noteCount g)
             (all_tags d)"
    unfolding all by (auto simp: list_all_iff)
  have 4: "sorted (map name (all_tags d))"
    unfolding names by (rule sorted_wrt_filter) simp
  have 5: "distinct (map name (all_tags d))"
    unfolding names by simp
  from 1 2 3 4 5 show ?thesis by blast
qed

text \<open>
  On the example store the tag \<^verbatim>\<open>Work\<close> is on one note that counts, on a trashed one and on
  an archived one, and the tag \<^verbatim>\<open>idle\<close> is on the trashed note only.
\<close>

theorem tags_with_counts_witness:
  "getAllTags example_store = Inr [\<lparr>name = ''Work'', noteCount = 1\<rparr>] \<and>
   {k. qualifying example_db k \<noteq> {}} = {''Work''} \<and>
   card (Z_PK ` qualifying example_db ''Work'') = 1"
proof -
  have e: "getAllTags example_store = Inr [\<lparr>name = ''Work'', noteCount = 1\<rparr>]"
    by code_simp
  from tags_with_counts [of example_db] obtain ts where
    ts: "getAllTags (Opens (Ready example_db)) = Inr ts"
      "set (map name ts) = {k. qualifying example_db k \<noteq> {}}"
      "list_all (\<lambda>g. noteCount g = card (Z_PK ` qualifying example_db (name g)) \<and> 0 < noteCount g) ts"
    by blast
  from ts(1) e have v: "ts = [\<lparr>name = ''Work'', noteCount = 1\<rparr>]"
    by (simp add: example_store_def)
  from ts(2) have 1: "{k. qualifying example_db k \<noteq> {}} = {''Work''}"
    unfolding v by simp
  from ts(3) have 2: "card (Z_PK ` qualifying example_db ''Work'') = 1"
    unfolding v by simp
  from e 1 2 show ?thesis by blast
qed

end
